theory Spec2Isabelle
  imports Main
begin

section \<open>Liar's Dice: the data model\<close>

text \<open>
  The Python classes of \<^verbatim>\<open>src/state.py\<close>, \<^verbatim>\<open>src/dice.py\<close>, \<^verbatim>\<open>src/players.py\<close>,
  \<^verbatim>\<open>src/bid.py\<close>, \<^verbatim>\<open>src/round_handler.py\<close> and \<^verbatim>\<open>src/game_handler.py\<close>.
  Enumerations are datatypes, classes are records, a method that mutates \<^verbatim>\<open>self\<close> takes the
  object and returns the updated one. Python's \<^verbatim>\<open>isinstance\<close> checks are discharged by the
  types: an argument of the wrong class cannot be written here, so no branch raises
  \<^verbatim>\<open>TypeError\<close>.

  Player objects are shared: the list \<^verbatim>\<open>players\<close> is the single place where they live, and
  a reference to a player (the \<^verbatim>\<open>player\<close> field of a bid, the value returned by
  \<^verbatim>\<open>get_player_by_name\<close> or \<^verbatim>\<open>resolve_challenge\<close>) is the player's position in that list.
  The list is never resized by the program, so a reference stays valid.
\<close>

datatype PlayerState = ACTIVE | LOST | WAITING | WON

datatype GameState = RUNNING | OVER

text \<open>The exception classes the code raises, each with its message.\<close>

datatype error = ValueError string | Exception string | IndexError string

text \<open>
  What a call does: it returns a value, raises, or never returns. The state that comes
  with an outcome is the state the objects are left in, also after a raise (Python keeps
  every assignment made before the exception).
\<close>

datatype 'a outcome = Returns 'a | Raises error | Diverges

record Die =
  sides :: int

record Player =
  name :: string
  state :: PlayerState
  dice :: "Die list"
  last_roll :: "int list"

record Bid =
  quantity :: int
  bid_value :: int
  player :: nat

record RoundHandler =
  players :: "Player list"
  round_number :: int
  current_player_id :: nat
  current_bid :: "Bid option"
  dice_count :: int

text \<open>
  \<^verbatim>\<open>GameHandler.players\<close> and \<^verbatim>\<open>RoundHandler.players\<close> are the same list object, and neither
  field is ever reassigned: the record keeps the list once, inside the round handler.
\<close>

record GameHandler =
  players_names :: "string list"
  gh_dice_count :: int
  round_handler :: RoundHandler
  game_state :: GameState

definition gh_players :: "GameHandler \<Rightarrow> Player list" where
  "gh_players g = players (round_handler g)"

section \<open>Die\<close>

text \<open>\<^verbatim>\<open>Die()\<close>: the only constructor call in the core uses the default of six sides.\<close>

definition Die_init :: "int \<Rightarrow> error + Die" where
  "Die_init n =
     (if n \<le> 1 then Inl (ValueError ''Number of sides must be greater than 1'')
      else Inr \<lparr>sides = n\<rparr>)"

text \<open>
  \<^verbatim>\<open>roll\<close> is \<^verbatim>\<open>randint(1, self.sides)\<close>. The random draw is a parameter: \<open>e\<close> is the
  entropy of this draw, and every value of the range is the image of some \<open>e\<close>.
\<close>

definition roll :: "Die \<Rightarrow> nat \<Rightarrow> int" where
  "roll d e = 1 + int e mod sides d"

text \<open>\<open>e k\<close> is the entropy of the \<open>k\<close>-th roll.\<close>

definition roll_dice :: "Die \<Rightarrow> (nat \<Rightarrow> nat) \<Rightarrow> int \<Rightarrow> error + int list" where
  "roll_dice d e num =
     (if num \<le> 0 then Inl (ValueError ''Number of times thrown must be greater than 0'')
      else Inr (map (\<lambda>k. roll d (e k)) [0..<nat num]))"

definition set_sides :: "Die \<Rightarrow> int \<Rightarrow> error + Die" where
  "set_sides d n =
     (if n \<le> 1 then Inl (ValueError ''Number of sides must be greater than 1'')
      else Inr (d\<lparr>sides := n\<rparr>))"

section \<open>Player\<close>

definition Player_init :: "string \<Rightarrow> int \<Rightarrow> error + Player" where
  "Player_init n dc =
     (if dc < 1 then Inl (ValueError ''Dice count must be greater than 0'')
      else Inr \<lparr>name = n, state = WAITING, dice = replicate (nat dc) \<lparr>sides = 6\<rparr>,
                last_roll = []\<rparr>)"

definition get_dice_count :: "Player \<Rightarrow> int" where
  "get_dice_count p = int (length (dice p))"

text \<open>\<open>e i\<close> is the entropy of the roll of the die at position \<open>i\<close>.\<close>

definition make_roll :: "Player \<Rightarrow> (nat \<Rightarrow> nat) \<Rightarrow> int \<Rightarrow> error + Player" where
  "make_roll p e count =
     (if count < 1 then Inl (ValueError ''Number of dice to roll must be greater than 0'')
      else if count > int (length (dice p)) then
        Inl (ValueError
          ''Number of dice to roll must be less or equal to the number of dice in game'')
      else Inr (p\<lparr>last_roll :=
                   last_roll p @ map (\<lambda>i. roll (dice p ! i) (e i)) [0..<nat count]\<rparr>))"

text \<open>\<^verbatim>\<open>self.dice.pop()\<close> raises on an empty list.\<close>

definition lose_die :: "Player \<Rightarrow> error + Player" where
  "lose_die p =
     (if dice p = [] then Inl (IndexError ''pop from empty list'')
      else let p1 = p\<lparr>dice := butlast (dice p)\<rparr>
           in Inr (if length (dice p1) = 0 then p1\<lparr>state := LOST\<rparr> else p1))"

definition get_die_value :: "Player \<Rightarrow> error + int" where
  "get_die_value p =
     (case dice p of [] \<Rightarrow> Inl (IndexError ''list index out of range'')
      | d # _ \<Rightarrow> Inr (sides d))"

definition is_active :: "Player \<Rightarrow> bool" where
  "is_active p = (state p = ACTIVE)"

definition reset_roll :: "Player \<Rightarrow> error + Player" where
  "reset_roll p =
     (if state p = LOST then Inl (Exception ''Player cannot roll dice after losing'')
      else Inr (p\<lparr>last_roll := []\<rparr>))"

definition set_state :: "Player \<Rightarrow> PlayerState \<Rightarrow> error + Player" where
  "set_state p s =
     (if state p = LOST then Inl (Exception ''Player cannot come back after losing'')
      else Inr (p\<lparr>state := s\<rparr>))"

section \<open>Bid\<close>

text \<open>
  \<^verbatim>\<open>Bid(quantity, value, player)\<close>: \<open>ps\<close> is the list the reference \<open>i\<close> points into.
\<close>

definition Bid_init :: "Player list \<Rightarrow> int \<Rightarrow> int \<Rightarrow> nat \<Rightarrow> error + Bid" where
  "Bid_init ps q v i =
     (if q < 1 \<or> v < 1 then Inl (ValueError ''Quantity and value must be greater than 0'')
      else if \<not> is_active (ps ! i) then Inl (ValueError ''Player is not active'')
      else Inr \<lparr>quantity = q, bid_value = v, player = i\<rparr>)"

definition Bid_eq :: "Player list \<Rightarrow> Bid \<Rightarrow> Bid \<Rightarrow> bool" where
  "Bid_eq ps a b =
     (quantity a = quantity b \<and> bid_value a = bid_value b \<and>
      name (ps ! player a) = name (ps ! player b))"

definition Bid_gt :: "Bid \<Rightarrow> Bid \<Rightarrow> bool" where
  "Bid_gt a b = (quantity a > quantity b \<or> bid_value a > bid_value b)"

definition Bid_lt :: "Bid \<Rightarrow> Bid \<Rightarrow> bool" where
  "Bid_lt a b = (quantity a < quantity b \<or> bid_value a < bid_value b)"

definition get_player_name :: "Player list \<Rightarrow> Bid \<Rightarrow> string" where
  "get_player_name ps b = name (ps ! player b)"

section \<open>RoundHandler\<close>

definition RoundHandler_init :: "Player list \<Rightarrow> RoundHandler" where
  "RoundHandler_init ps =
     \<lparr>players = ps, round_number = 0, current_player_id = 0, current_bid = None,
      dice_count = sum_list (map get_dice_count ps)\<rparr>"

text \<open>
  The loop of \<^verbatim>\<open>start_round\<close> over the players, the player at position \<open>k\<close> first. It
  stops at the first \<^verbatim>\<open>make_roll\<close> that raises; the players before it keep their new rolls.
\<close>

fun roll_all :: "(nat \<Rightarrow> nat \<Rightarrow> nat) \<Rightarrow> nat \<Rightarrow> Player list \<Rightarrow> error option \<times> Player list" where
  "roll_all rng k [] = (None, [])"
| "roll_all rng k (p # ps) =
     (case make_roll p (rng k) (get_dice_count p) of
        Inl e \<Rightarrow> (Some e, p # ps)
      | Inr p1 \<Rightarrow> (case roll_all rng (Suc k) ps of (r, ps1) \<Rightarrow> (r, p1 # ps1)))"

definition start_round :: "(nat \<Rightarrow> nat \<Rightarrow> nat) \<Rightarrow> RoundHandler \<Rightarrow> unit outcome \<times> RoundHandler" where
  "start_round rng rh =
     (let rh1 = rh\<lparr>round_number := round_number rh + 1\<rparr> in
      case roll_all rng 0 (players rh1) of
        (Some e, ps) \<Rightarrow> (Raises e, rh1\<lparr>players := ps\<rparr>)
      | (None, ps) \<Rightarrow>
          (let rh2 = rh1\<lparr>players := ps, current_bid := None\<rparr>;
               c = current_player_id rh2
           in if length ps \<le> c then (Raises (IndexError ''list index out of range''), rh2)
              else (case set_state (ps ! c) ACTIVE of
                      Inl e \<Rightarrow> (Raises e, rh2)
                    | Inr p \<Rightarrow> (Returns (), rh2\<lparr>players := ps[c := p]\<rparr>))))"

text \<open>The first player of the list with the given name, as a reference.\<close>

fun find_name :: "Player list \<Rightarrow> string \<Rightarrow> nat option" where
  "find_name [] n = None"
| "find_name (p # ps) n = (if name p = n then Some 0 else map_option Suc (find_name ps n))"

definition get_player_by_name :: "RoundHandler \<Rightarrow> string \<Rightarrow> error + nat" where
  "get_player_by_name rh n =
     (case find_name (players rh) n of
        None \<Rightarrow> Inl (Exception ''Player not found'')
      | Some i \<Rightarrow> Inr i)"

definition is_higher_bid :: "Bid \<Rightarrow> Bid option \<Rightarrow> bool" where
  "is_higher_bid new_bid cur =
     (case cur of
        None \<Rightarrow> True
      | Some current \<Rightarrow>
          if quantity new_bid > quantity current then True
          else if quantity new_bid = quantity current \<and> bid_value new_bid > bid_value current
          then True
          else False)"

text \<open>
  The \<^verbatim>\<open>while True\<close> loop of \<^verbatim>\<open>next_player\<close>: step to the next position, circularly, until
  the player there is WAITING. \<open>None\<close> is the loop that never ends.
\<close>

partial_function (option) find_waiting :: "Player list \<Rightarrow> nat \<Rightarrow> nat option" where
  "find_waiting ps i =
     (if state (ps ! ((i + 1) mod length ps)) = WAITING then Some ((i + 1) mod length ps)
      else find_waiting ps ((i + 1) mod length ps))"

definition next_player :: "RoundHandler \<Rightarrow> unit outcome \<times> RoundHandler" where
  "next_player rh =
     (let c = current_player_id rh; ps = players rh in
      if length ps \<le> c then (Raises (IndexError ''list index out of range''), rh)
      else
        (let ps1 = ps[c := (ps ! c)\<lparr>state := WAITING\<rparr>] in
         case find_waiting ps1 c of
           None \<Rightarrow> (Diverges, rh\<lparr>players := ps1\<rparr>)
         | Some j \<Rightarrow>
             (Returns (),
              rh\<lparr>players := ps1[j := (ps1 ! j)\<lparr>state := ACTIVE\<rparr>],
                 current_player_id := j\<rparr>)))"

definition make_bid :: "RoundHandler \<Rightarrow> string \<Rightarrow> int \<Rightarrow> int \<Rightarrow> unit outcome \<times> RoundHandler" where
  "make_bid rh player_name number_of_dice dice_value =
     (case get_player_by_name rh player_name of
        Inl e \<Rightarrow> (Raises e, rh)
      | Inr i \<Rightarrow>
          if dice_value < 1 then (Raises (ValueError ''Bid value must be greater than 0''), rh)
          else
            (case get_die_value (players rh ! i) of
               Inl e \<Rightarrow> (Raises e, rh)
             | Inr m \<Rightarrow>
                 if dice_value > m then
                   (Raises (ValueError
                      ''Bid value must be less or equal to the value of dice in game''), rh)
                 else if number_of_dice > dice_count rh then
                   (Raises (ValueError
                      ''Number of dice must be equal or less than number of dice in game''), rh)
                 else if state (players rh ! i) \<noteq> ACTIVE then
                   (Raises (ValueError (''Player '' @ player_name @ '' is not active'')), rh)
                 else
                   (case Bid_init (players rh) number_of_dice dice_value i of
                      Inl e \<Rightarrow> (Raises e, rh)
                    | Inr new_bid \<Rightarrow>
                        if \<not> is_higher_bid new_bid (current_bid rh) then
                          (Raises (ValueError ''Bid must be higher than the previous one!''), rh)
                        else next_player (rh\<lparr>current_bid := Some new_bid\<rparr>))))"

text \<open>Decimal digits of an integer, for the one message that formats a number.\<close>

fun str_nat :: "nat \<Rightarrow> string" where
  "str_nat n =
     (if n < 10 then [char_of (48 + n)]
      else str_nat (n div 10) @ [char_of (48 + n mod 10)])"

definition str_int :: "int \<Rightarrow> string" where
  "str_int i = (if i < 0 then CHR ''-'' # str_nat (nat (- i)) else str_nat (nat i))"

definition count_dice_value :: "RoundHandler \<Rightarrow> int \<Rightarrow> error + int" where
  "count_dice_value rh v =
     (if length (players rh) \<le> current_player_id rh then
        Inl (IndexError ''list index out of range'')
      else
        (case get_die_value (players rh ! current_player_id rh) of
           Inl e \<Rightarrow> Inl e
         | Inr max_die_value \<Rightarrow>
             if v < 1 \<or> v > max_die_value then
               Inl (ValueError (''Value must be between 1 and '' @ str_int max_die_value))
             else
               Inr (fold (\<lambda>p count. fold (\<lambda>r count. if r = v then count + 1 else count)
                                         (last_roll p) count)
                         (players rh) 0)))"

definition eliminate_player :: "Player \<Rightarrow> Player" where
  "eliminate_player p = p\<lparr>state := LOST\<rparr>"

text \<open>\<open>i\<close> is the reference to the player to penalise.\<close>

definition apply_penalty :: "RoundHandler \<Rightarrow> nat \<Rightarrow> unit outcome \<times> RoundHandler" where
  "apply_penalty rh i =
     (case lose_die (players rh ! i) of
        Inl e \<Rightarrow> (Raises e, rh)
      | Inr p1 \<Rightarrow>
          (Returns (),
           rh\<lparr>players :=
                (players rh)[i := (if get_dice_count p1 = 0 then eliminate_player p1 else p1)]\<rparr>))"

text \<open>
  The loop of \<^verbatim>\<open>reset_players_after_round\<close>. It stops at the first call that raises, and the
  players before it keep what the loop did to them.
\<close>

fun reset_loop :: "Player list \<Rightarrow> error option \<times> Player list" where
  "reset_loop [] = (None, [])"
| "reset_loop (p # ps) =
     (case reset_roll p of
        Inl e \<Rightarrow> (Some e, p # ps)
      | Inr p1 \<Rightarrow>
          if get_dice_count p1 = 0 then
            (case reset_loop ps of (r, ps1) \<Rightarrow> (r, eliminate_player p1 # ps1))
          else
            (case set_state p1 WAITING of
               Inl e \<Rightarrow> (Some e, p1 # ps)
             | Inr p2 \<Rightarrow> (case reset_loop ps of (r, ps1) \<Rightarrow> (r, p2 # ps1))))"

definition reset_players_after_round :: "RoundHandler \<Rightarrow> unit outcome \<times> RoundHandler" where
  "reset_players_after_round rh =
     (case reset_loop (players rh) of
        (Some e, ps) \<Rightarrow> (Raises e, rh\<lparr>players := ps\<rparr>)
      | (None, ps) \<Rightarrow> (Returns (), rh\<lparr>players := ps\<rparr>))"

definition resolve_challenge :: "nat \<Rightarrow> nat \<Rightarrow> int \<Rightarrow> int \<Rightarrow> nat" where
  "resolve_challenge bidder challenger target_dice_amount value_of_die =
     (if value_of_die < target_dice_amount then bidder else challenger)"

fun find_active :: "Player list \<Rightarrow> nat option" where
  "find_active [] = None"
| "find_active (p # ps) = (if is_active p then Some 0 else map_option Suc (find_active ps))"

definition get_active_player :: "RoundHandler \<Rightarrow> error + nat" where
  "get_active_player rh =
     (case find_active (players rh) of
        None \<Rightarrow> Inl (Exception ''No active player'')
      | Some i \<Rightarrow> Inr i)"

definition check_if_start_next_round :: "RoundHandler \<Rightarrow> bool" where
  "check_if_start_next_round rh =
     (length (filter (\<lambda>p. state p \<noteq> LOST) (players rh)) > 1)"

definition end_game_info :: "RoundHandler \<Rightarrow> error + string" where
  "end_game_info rh =
     (case filter (\<lambda>p. state p \<noteq> LOST) (players rh) of
        [] \<Rightarrow> Inl (Exception ''No winner'')
      | winner # _ \<Rightarrow> Inr (name winner))"

text \<open>
  The first check also tests \<^verbatim>\<open>not self.current_bid.player\<close>; a Player object defines neither
  \<^verbatim>\<open>__bool__\<close> nor \<^verbatim>\<open>__len__\<close>, so it is true and the test never fires. \<open>rng\<close> is the
  entropy of the rolls of the next round.
\<close>

definition challenge_and_end_round ::
  "(nat \<Rightarrow> nat \<Rightarrow> nat) \<Rightarrow> RoundHandler \<Rightarrow> string \<Rightarrow> string outcome \<times> RoundHandler" where
  "challenge_and_end_round rng rh player_name =
     (case current_bid rh of
        None \<Rightarrow> (Raises (ValueError ''No bid to challenge''), rh)
      | Some b \<Rightarrow>
          (case get_player_by_name rh player_name of
             Inl e \<Rightarrow> (Raises e, rh)
           | Inr challenger \<Rightarrow>
               if state (players rh ! challenger) \<noteq> ACTIVE then
                 (Raises (ValueError (''Player '' @ player_name @ '' is not active'')), rh)
               else
                 (case count_dice_value rh (bid_value b) of
                    Inl e \<Rightarrow> (Raises e, rh)
                  | Inr value_of_die \<Rightarrow>
                      (let loser = resolve_challenge (player b) challenger (quantity b)
                                     value_of_die
                       in case apply_penalty rh loser of
                            (Raises e, rh1) \<Rightarrow> (Raises e, rh1)
                          | (Diverges, rh1) \<Rightarrow> (Diverges, rh1)
                          | (Returns _, rh1) \<Rightarrow>
                              (case reset_players_after_round rh1 of
                                 (Raises e, rh2) \<Rightarrow> (Raises e, rh2)
                               | (Diverges, rh2) \<Rightarrow> (Diverges, rh2)
                               | (Returns _, rh2) \<Rightarrow>
                                   if check_if_start_next_round rh2 then
                                     (case start_round rng rh2 of
                                        (Raises e, rh3) \<Rightarrow> (Raises e, rh3)
                                      | (Diverges, rh3) \<Rightarrow> (Diverges, rh3)
                                      | (Returns _, rh3) \<Rightarrow>
                                          (Returns (name (players rh3 ! loser)), rh3))
                                   else
                                     (case end_game_info rh2 of
                                        Inl e \<Rightarrow> (Raises e, rh2)
                                      | Inr _ \<Rightarrow>
                                          (Returns (name (players rh2 ! loser)), rh2)))))))"

section \<open>GameHandler\<close>

fun create_players :: "int \<Rightarrow> string list \<Rightarrow> error + Player list" where
  "create_players dc [] = Inr []"
| "create_players dc (n # ns) =
     (case Player_init n dc of
        Inl e \<Rightarrow> Inl e
      | Inr p \<Rightarrow> (case create_players dc ns of Inl e \<Rightarrow> Inl e | Inr ps \<Rightarrow> Inr (p # ps)))"

definition GameHandler_init :: "string list \<Rightarrow> int \<Rightarrow> error + GameHandler" where
  "GameHandler_init names dc =
     (if dc < 1 then Inl (ValueError ''Dice count must be more or equal to 1'')
      else
        (case create_players dc names of
           Inl e \<Rightarrow> Inl e
         | Inr ps \<Rightarrow>
             Inr \<lparr>players_names = names, gh_dice_count = dc,
                  round_handler = RoundHandler_init ps, game_state = RUNNING\<rparr>))"

text \<open>\<open>i\<close> is the reference to the player passed as \<^verbatim>\<open>active_player\<close>.\<close>

definition play_bid_turn :: "GameHandler \<Rightarrow> nat \<Rightarrow> int \<Rightarrow> int \<Rightarrow> unit outcome \<times> GameHandler" where
  "play_bid_turn g i number_of_dice dice_value =
     (if state (gh_players g ! i) \<noteq> ACTIVE then (Raises (Exception ''Player is not active''), g)
      else
        (case make_bid (round_handler g) (name (gh_players g ! i)) number_of_dice dice_value of
           (r, rh) \<Rightarrow> (r, g\<lparr>round_handler := rh\<rparr>)))"

definition play_challenge_turn ::
  "(nat \<Rightarrow> nat \<Rightarrow> nat) \<Rightarrow> GameHandler \<Rightarrow> nat \<Rightarrow> string outcome \<times> GameHandler" where
  "play_challenge_turn rng g i =
     (if \<not> state (gh_players g ! i) = ACTIVE then (Raises (Exception ''Player is not active''), g)
      else
        (case challenge_and_end_round rng (round_handler g) (name (gh_players g ! i)) of
           (r, rh) \<Rightarrow> (r, g\<lparr>round_handler := rh\<rparr>)))"

definition play_check_turn :: "GameHandler \<Rightarrow> nat \<Rightarrow> error + int list" where
  "play_check_turn g i =
     (if \<not> state (gh_players g ! i) = ACTIVE then Inl (Exception ''Player is not active'')
      else Inr (last_roll (gh_players g ! i)))"

definition gh_start_round :: "(nat \<Rightarrow> nat \<Rightarrow> nat) \<Rightarrow> GameHandler \<Rightarrow> unit outcome \<times> GameHandler" where
  "gh_start_round rng g =
     (case start_round rng (round_handler g) of (r, rh) \<Rightarrow> (r, g\<lparr>round_handler := rh\<rparr>))"

section \<open>The operations of the core, as one step function\<close>

text \<open>
  Every method of Player, RoundHandler and GameHandler that assigns to an object. The
  methods left out only read (\<^verbatim>\<open>get_player_by_name\<close>, \<^verbatim>\<open>count_dice_value\<close>,
  \<^verbatim>\<open>resolve_challenge\<close>, \<^verbatim>\<open>is_higher_bid\<close>, \<^verbatim>\<open>get_active_player\<close>,
  \<^verbatim>\<open>check_if_start_next_round\<close>, \<^verbatim>\<open>end_game_info\<close>, \<^verbatim>\<open>play_check_turn\<close> and the getters).
  A player argument is a reference \<open>i\<close> into the game's player list.
\<close>

datatype core_op =
    Player_make_roll nat "nat \<Rightarrow> nat" int
  | Player_lose_die nat
  | Player_reset_roll nat
  | Player_set_state nat PlayerState
  | RH_start_round "nat \<Rightarrow> nat \<Rightarrow> nat"
  | RH_make_bid string int int
  | RH_next_player
  | RH_challenge_and_end_round "nat \<Rightarrow> nat \<Rightarrow> nat" string
  | RH_apply_penalty nat
  | RH_reset_players_after_round
  | RH_eliminate_player nat
  | GH_play_bid_turn nat int int
  | GH_play_challenge_turn "nat \<Rightarrow> nat \<Rightarrow> nat" nat
  | GH_start_round "nat \<Rightarrow> nat \<Rightarrow> nat"

text \<open>
  A method of one player, applied to the player behind the reference \<open>i\<close>; when it raises,
  the player is as before.
\<close>

definition on_player :: "(Player \<Rightarrow> error + Player) \<Rightarrow> nat \<Rightarrow> RoundHandler \<Rightarrow> RoundHandler" where
  "on_player f i rh =
     (if length (players rh) \<le> i then rh
      else (case f (players rh ! i) of
              Inl e \<Rightarrow> rh
            | Inr p \<Rightarrow> rh\<lparr>players := (players rh)[i := p]\<rparr>))"

text \<open>
  The round handler an operation leaves behind, whether it returned or raised. The three
  methods of GameHandler are dealt with by \<open>exec\<close> below, which never passes them on.
\<close>

fun rh_exec :: "core_op \<Rightarrow> RoundHandler \<Rightarrow> RoundHandler" where
  "rh_exec (Player_make_roll i e count) rh = on_player (\<lambda>p. make_roll p e count) i rh"
| "rh_exec (Player_lose_die i) rh = on_player lose_die i rh"
| "rh_exec (Player_reset_roll i) rh = on_player reset_roll i rh"
| "rh_exec (Player_set_state i s) rh = on_player (\<lambda>p. set_state p s) i rh"
| "rh_exec (RH_start_round rng) rh = snd (start_round rng rh)"
| "rh_exec (RH_make_bid n q v) rh = snd (make_bid rh n q v)"
| "rh_exec RH_next_player rh = snd (next_player rh)"
| "rh_exec (RH_challenge_and_end_round rng n) rh = snd (challenge_and_end_round rng rh n)"
| "rh_exec (RH_apply_penalty i) rh = (if length (players rh) \<le> i then rh else snd (apply_penalty rh i))"
| "rh_exec RH_reset_players_after_round rh = snd (reset_players_after_round rh)"
| "rh_exec (RH_eliminate_player i) rh = on_player (\<lambda>p. Inr (eliminate_player p)) i rh"
| "rh_exec (GH_play_bid_turn i q v) rh = rh"
| "rh_exec (GH_play_challenge_turn rng i) rh = rh"
| "rh_exec (GH_start_round rng) rh = rh"

fun exec :: "core_op \<Rightarrow> GameHandler \<Rightarrow> GameHandler" where
  "exec (GH_play_bid_turn i q v) g =
     (if length (gh_players g) \<le> i then g else snd (play_bid_turn g i q v))"
| "exec (GH_play_challenge_turn rng i) g =
     (if length (gh_players g) \<le> i then g else snd (play_challenge_turn rng g i))"
| "exec (GH_start_round rng) g = snd (gh_start_round rng g)"
| "exec op g = g\<lparr>round_handler := rh_exec op (round_handler g)\<rparr>"

definition run :: "core_op list \<Rightarrow> GameHandler \<Rightarrow> GameHandler" where
  "run ops g = foldl (\<lambda>g op. exec op g) g ops"

text \<open>The one call that hands the state WON to a player: \<^verbatim>\<open>set_state(PlayerState.WON)\<close>.\<close>

fun sets_won :: "core_op \<Rightarrow> bool" where
  "sets_won (Player_set_state i s) = (s = WON)"
| "sets_won _ = False"

text \<open>Every player of the list is WAITING, ACTIVE or LOST.\<close>

definition no_won :: "Player list \<Rightarrow> bool" where
  "no_won ps = list_all (\<lambda>p. state p = WAITING \<or> state p = ACTIVE \<or> state p = LOST) ps"

text \<open>Exactly one player of the list is ACTIVE.\<close>

definition one_active :: "Player list \<Rightarrow> bool" where
  "one_active ps = (length (filter is_active ps) = 1)"

text \<open>The rotation pointer is a position of the player list.\<close>

definition index_in_range :: "RoundHandler \<Rightarrow> bool" where
  "index_in_range rh = (current_player_id rh < length (players rh))"

text \<open>The players who are LOST in the first list are LOST in the second.\<close>

definition lost_kept :: "Player list \<Rightarrow> Player list \<Rightarrow> bool" where
  "lost_kept ps ps1 =
     (length ps1 = length ps \<and>
      (\<forall>k<length ps. state (ps ! k) = LOST \<longrightarrow> state (ps1 ! k) = LOST))"

text \<open>A player who is still in the game: not LOST, with a die in hand.\<close>

definition in_play :: "Player \<Rightarrow> bool" where
  "in_play p = (state p \<noteq> LOST \<and> dice p \<noteq> [])"

text \<open>The values a player rolls with the whole hand, from the entropy \<open>e\<close>.\<close>

definition fresh_roll :: "(nat \<Rightarrow> nat) \<Rightarrow> Player \<Rightarrow> int list" where
  "fresh_roll e p = map (\<lambda>i. roll (dice p ! i) (e i)) [0..<length (dice p)]"

text \<open>The operations that call \<^verbatim>\<open>next_player\<close>.\<close>

fun rotates :: "core_op \<Rightarrow> bool" where
  "rotates RH_next_player = True"
| "rotates (RH_make_bid n q v) = True"
| "rotates (GH_play_bid_turn i q v) = True"
| "rotates _ = False"

section \<open>Example states\<close>

text \<open>
  The players of the test suite: a name, a state, a hand of six-sided dice and the values
  of the last roll.
\<close>

definition example_player :: "string \<Rightarrow> PlayerState \<Rightarrow> nat \<Rightarrow> int list \<Rightarrow> Player" where
  "example_player n s k rs =
     \<lparr>name = n, state = s, dice = replicate k \<lparr>sides = 6\<rparr>, last_roll = rs\<rparr>"

definition jan_and_kowalski :: "Player list" where
  "jan_and_kowalski =
     [example_player ''Jan'' ACTIVE 5 [], example_player ''Kowalski'' WAITING 5 []]"

text \<open>Jan is to act on Kowalski's bid of five ones.\<close>

definition bid_standing :: RoundHandler where
  "bid_standing =
     \<lparr>players = jan_and_kowalski, round_number = 1, current_player_id = 0,
      current_bid = Some \<lparr>quantity = 5, bid_value = 1, player = 1\<rparr>, dice_count = 10\<rparr>"

text \<open>
  Kowalski is to act and is the only player left: Jan has bid one die showing one, both
  dice showed two, Kowalski has challenged and Jan has lost the only die.
\<close>

definition last_standing :: RoundHandler where
  "last_standing =
     \<lparr>players = [example_player ''Jan'' LOST 0 [2], example_player ''Kowalski'' ACTIVE 1 [2]],
      round_number = 1, current_player_id = 1,
      current_bid = Some \<lparr>quantity = 1, bid_value = 1, player = 0\<rparr>, dice_count = 2\<rparr>"

text \<open>
  Three fresh players, of whom Jan and Kowalski have been made ACTIVE by \<^verbatim>\<open>set_state\<close>.
\<close>

definition two_active :: RoundHandler where
  "two_active =
     \<lparr>players = [example_player ''Jan'' ACTIVE 5 [], example_player ''Kowalski'' ACTIVE 5 [],
                 example_player ''Tomasz'' WAITING 5 []],
      round_number = 0, current_player_id = 0, current_bid = None, dice_count = 15\<rparr>"

text \<open>The fixture of the round handler's tests: a handler on two fresh players.\<close>

definition two_waiting :: RoundHandler where
  "two_waiting =
     RoundHandler_init
       [example_player ''Jan'' WAITING 5 [], example_player ''Kowalski'' WAITING 5 []]"

definition one_die_each :: RoundHandler where
  "one_die_each =
     RoundHandler_init
       [example_player ''Jan'' WAITING 1 [], example_player ''Kowalski'' WAITING 1 []]"

text \<open>
  Kowalski is to act on Jan's bid of three fours; Jan has rolled two fours, Kowalski has
  rolled \<open>rs\<close>.
\<close>

definition challenged :: "int list \<Rightarrow> RoundHandler" where
  "challenged rs =
     \<lparr>players = [example_player ''Jan'' WAITING 5 [4, 4, 1, 2, 3],
                 example_player ''Kowalski'' ACTIVE 5 rs],
      round_number = 1, current_player_id = 1,
      current_bid = Some \<lparr>quantity = 3, bid_value = 4, player = 0\<rparr>, dice_count = 10\<rparr>"

text \<open>What \<^verbatim>\<open>GameHandler(names, k)\<close> builds for a positive \<open>k\<close>.\<close>

definition new_game :: "string list \<Rightarrow> nat \<Rightarrow> GameHandler" where
  "new_game names k =
     \<lparr>players_names = names, gh_dice_count = int k,
      round_handler = RoundHandler_init (map (\<lambda>n. example_player n WAITING k []) names),
      game_state = RUNNING\<rparr>"

text \<open>
  A game of two dice each in which Kowalski has lost a die before the first round: four
  dice at the start, three in play.
\<close>

definition after_one_loss :: GameHandler where
  "after_one_loss =
     run [RH_apply_penalty 1, GH_start_round (\<lambda>p i. 0)] (new_game [''Jan'', ''Kowalski''] 2)"

section \<open>Evaluation and frame lemmas\<close>

text \<open>The definitions a concrete call unfolds to.\<close>

lemmas eval_defs = challenge_and_end_round_def get_player_by_name_def count_dice_value_def
  get_die_value_def resolve_challenge_def apply_penalty_def lose_die_def get_dice_count_def
  eliminate_player_def reset_players_after_round_def reset_roll_def set_state_def
  check_if_start_next_round_def start_round_def make_roll_def roll_def end_game_info_def
  Let_def run_def gh_start_round_def play_bid_turn_def play_challenge_turn_def gh_players_def
  make_bid_def Bid_init_def is_active_def is_higher_bid_def next_player_def find_waiting.simps
  RoundHandler_init_def example_player_def new_game_def on_player_def

text \<open>Counting in \<^verbatim>\<open>count_dice_value\<close>: the two nested loops add up the occurrences.\<close>

lemma fold_count_inner:
  "fold (\<lambda>r count. if r = v then count + 1 else count) rs (c::int) = c + int (count_list rs v)"
  by (induction rs arbitrary: c) auto

lemma fold_count_outer:
  "fold (\<lambda>p count. fold (\<lambda>r count. if r = v then count + 1 else count) (last_roll p) count) ps (c::int)
     = c + (\<Sum>p\<leftarrow>ps. int (count_list (last_roll p) v))"
  by (induction ps arbitrary: c) (auto simp: fold_count_inner)

lemma count_dice_value_Inr:
  "count_dice_value rh v = Inr C \<Longrightarrow> C = (\<Sum>p\<leftarrow>players rh. int (count_list (last_roll p) v))"
  by (auto simp: count_dice_value_def fold_count_outer split: if_splits sum.splits)

text \<open>No operation resizes the player list or renames a player.\<close>

lemma find_name_length: "find_name ps n = Some i \<Longrightarrow> i < length ps"
  by (induction ps arbitrary: i) (auto split: if_splits)

lemma lose_die_name: "lose_die p = Inr p1 \<Longrightarrow> name p1 = name p"
  by (auto simp: lose_die_def Let_def split: if_splits)

lemma map_update_keep:
  "(i < length xs \<Longrightarrow> f y = f (xs ! i)) \<Longrightarrow> map f (xs[i := y]) = map f xs"
  by (cases "i < length xs") (auto simp: list_eq_iff_nth_eq nth_list_update)

lemma apply_penalty_names:
  "apply_penalty rh i = (r, rh1) \<Longrightarrow> map name (players rh1) = map name (players rh)"
  by (auto simp: apply_penalty_def eliminate_player_def intro!: map_update_keep
      dest!: lose_die_name split: sum.splits if_splits)

lemma reset_loop_names: "reset_loop ps = (r, ps1) \<Longrightarrow> map name ps1 = map name ps"
  by (induction ps arbitrary: r ps1)
     (auto simp: reset_roll_def set_state_def eliminate_player_def
           split: sum.splits if_splits prod.splits)

lemma reset_players_names:
  "reset_players_after_round rh = (r, rh1) \<Longrightarrow> map name (players rh1) = map name (players rh)"
  by (auto simp: reset_players_after_round_def dest: reset_loop_names
      split: prod.splits option.splits)

lemma roll_all_names: "roll_all rng k ps = (r, ps1) \<Longrightarrow> map name ps1 = map name ps"
  by (induction ps arbitrary: k r ps1) (auto simp: make_roll_def split: sum.splits if_splits prod.splits)

lemma roll_all_length: "roll_all rng k ps = (r, ps1) \<Longrightarrow> length ps1 = length ps"
  by (induction ps arbitrary: k r ps1) (auto split: sum.splits prod.splits)

lemma start_round_names:
  "start_round rng rh = (r, rh1) \<Longrightarrow> map name (players rh1) = map name (players rh)"
proof -
  have "map name (ps[c := (ps ! c)\<lparr>state := ACTIVE\<rparr>]) = map name ps" for ps :: "Player list" and c
    by (rule map_update_keep) simp
  then show "start_round rng rh = (r, rh1) \<Longrightarrow> map name (players rh1) = map name (players rh)"
    by (auto simp: start_round_def Let_def set_state_def
        dest!: roll_all_names split: prod.splits option.splits sum.splits if_splits)
qed

lemma names_nth:
  "map name ps1 = map name ps \<Longrightarrow> i < length ps \<Longrightarrow> name (ps1 ! i) = name (ps ! i)"
  by (metis length_map nth_map)

section \<open>The loop of \<^verbatim>\<open>next_player\<close>\<close>

text \<open>
  The loop returns the first position after \<open>i\<close>, in circular order, whose player is
  WAITING; it returns as soon as some player is WAITING.
\<close>

lemma find_waiting_first:
  "state (ps ! ((i + 1 + d) mod length ps)) = WAITING \<Longrightarrow>
   \<forall>d'<d. state (ps ! ((i + 1 + d') mod length ps)) \<noteq> WAITING \<Longrightarrow>
   find_waiting ps i = Some ((i + 1 + d) mod length ps)"
proof (induction d arbitrary: i)
  case 0
  then show ?case by (subst find_waiting.simps) simp
next
  case (Suc d)
  let ?i = "(i + 1) mod length ps"
  have shift: "(?i + 1 + e) mod length ps = (i + 1 + Suc e) mod length ps" for e
    by (metis (no_types, opaque_lifting) add.assoc add.commute mod_add_left_eq plus_1_eq_Suc)
  from Suc.prems(2) have miss: "state (ps ! ?i) \<noteq> WAITING"
    by (metis add.right_neutral zero_less_Suc)
  have "find_waiting ps ?i = Some ((?i + 1 + d) mod length ps)"
  proof (rule Suc.IH)
    show "state (ps ! ((?i + 1 + d) mod length ps)) = WAITING"
      using Suc.prems(1) by (simp only: shift)
    show "\<forall>d'<d. state (ps ! ((?i + 1 + d') mod length ps)) \<noteq> WAITING"
      using Suc.prems(2) by (simp only: shift) auto
  qed
  then show ?case
    using miss by (subst find_waiting.simps) (simp only: shift if_False)
qed

lemma reach_index:
  assumes "c < (n::nat)"
  shows "(i + 1 + (c + (n - 1) * (i + 1))) mod n = c"
proof -
  from assms obtain m where "n = Suc m" by (cases n) auto
  then have "i + 1 + (c + (n - 1) * (i + 1)) = c + n * (i + 1)"
    by (simp add: algebra_simps)
  then have "(i + 1 + (c + (n - 1) * (i + 1))) mod n = (c + n * (i + 1)) mod n"
    by (rule arg_cong)
  also have "\<dots> = c mod n" by (rule mod_mult_self2)
  also have "\<dots> = c" using assms by simp
  finally show ?thesis .
qed

lemma find_waiting_returns:
  assumes "c < length ps" and "state (ps ! c) = WAITING"
  shows "\<exists>d. find_waiting ps i = Some ((i + 1 + d) mod length ps)
            \<and> state (ps ! ((i + 1 + d) mod length ps)) = WAITING
            \<and> (\<forall>d'<d. state (ps ! ((i + 1 + d') mod length ps)) \<noteq> WAITING)"
proof -
  let ?P = "\<lambda>d. state (ps ! ((i + 1 + d) mod length ps)) = WAITING"
  have "?P (c + (length ps - 1) * (i + 1))"
    using assms by (simp only: reach_index)
  then have least: "?P (LEAST d. ?P d)" by (rule LeastI)
  have "\<forall>d'<(LEAST d. ?P d). \<not> ?P d'" using not_less_Least by blast
  with least show ?thesis
    using find_waiting_first by blast
qed

lemma step_back:
  assumes "c < (n::nat)" "k < n" "k \<noteq> c"
  shows "\<exists>d<n - 1. (c + 1 + d) mod n = k"
proof (cases "c < k")
  case True
  then have "k - c - 1 < n - 1" "(c + 1 + (k - c - 1)) mod n = k" using assms by auto
  then show ?thesis by blast
next
  case False
  then have lt: "k < c" using assms by simp
  then have "c + 1 + (k + n - c - 1) = k + n" using assms by simp
  then have "(c + 1 + (k + n - c - 1)) mod n = (k + n) mod n" by (rule arg_cong)
  then have "(c + 1 + (k + n - c - 1)) mod n = k" using assms by simp
  moreover have "k + n - c - 1 < n - 1" using lt assms by simp
  ultimately show ?thesis by blast
qed

lemma no_early_return:
  assumes "c < (n::nat)" "d < n - 1"
  shows "(c + 1 + d) mod n \<noteq> c"
proof (cases "c + 1 + d < n")
  case True
  then show ?thesis by simp
next
  case False
  then have "c + 1 + d = (c + 1 + d - n) + n" by simp
  then have "(c + 1 + d) mod n = ((c + 1 + d - n) + n) mod n" by (rule arg_cong)
  also have "\<dots> = (c + 1 + d - n) mod n" by simp
  also have "\<dots> = c + 1 + d - n" using assms by simp
  finally show ?thesis using assms False by simp
qed

lemma next_player_scan:
  assumes c: "current_player_id rh < length (players rh)"
  defines "ps1 \<equiv> (players rh)[current_player_id rh :=
                     (players rh ! current_player_id rh)\<lparr>state := WAITING\<rparr>]"
  shows "\<exists>d. let j = (current_player_id rh + 1 + d) mod length (players rh) in
           next_player rh =
             (Returns (), rh\<lparr>players := ps1[j := (ps1 ! j)\<lparr>state := ACTIVE\<rparr>],
                             current_player_id := j\<rparr>)
           \<and> state (ps1 ! j) = WAITING
           \<and> (\<forall>d'<d. state (ps1 ! ((current_player_id rh + 1 + d') mod length (players rh)))
                         \<noteq> WAITING)"
proof -
  have len: "length ps1 = length (players rh)" by (simp add: ps1_def)
  have "current_player_id rh < length ps1" "state (ps1 ! current_player_id rh) = WAITING"
    using c by (simp_all add: ps1_def)
  from find_waiting_returns [OF this, of "current_player_id rh"]
  obtain d where d: "find_waiting ps1 (current_player_id rh)
                       = Some ((current_player_id rh + 1 + d) mod length ps1)"
      "state (ps1 ! ((current_player_id rh + 1 + d) mod length ps1)) = WAITING"
      "\<forall>d'<d. state (ps1 ! ((current_player_id rh + 1 + d') mod length ps1)) \<noteq> WAITING"
    by blast
  have "next_player rh =
      (Returns (), rh\<lparr>players := ps1[(current_player_id rh + 1 + d) mod length ps1
                           := (ps1 ! ((current_player_id rh + 1 + d) mod length ps1))\<lparr>state := ACTIVE\<rparr>],
                       current_player_id := (current_player_id rh + 1 + d) mod length ps1\<rparr>)"
    using c d(1) unfolding next_player_def Let_def ps1_def [symmetric] by simp
  with d(2,3) show ?thesis unfolding Let_def len by blast
qed

lemma next_player_always_returns:
  "current_player_id rh < length (players rh) \<Longrightarrow>
   \<exists>rh'. next_player rh = (Returns (), rh') \<and> current_bid rh' = current_bid rh"
  using next_player_scan [of rh] by (auto simp: Let_def)

lemma one_active_at:
  assumes "j < length ps" "\<forall>k<length ps. (state (ps ! k) = ACTIVE) = (k = j)"
  shows "one_active ps"
proof -
  have "{i. i < length ps \<and> is_active (ps ! i)} = {j}"
    using assms by (auto simp: is_active_def)
  then show ?thesis
    by (simp add: one_active_def length_filter_conv_card)
qed

text \<open>
  The rotation pointer starts at 0 and is only ever assigned a remainder modulo the length
  of the list: in a game of at least one player it is a position of the list after every
  sequence of operations.
\<close>

lemma reset_loop_length: "reset_loop ps = (r, ps1) \<Longrightarrow> length ps1 = length ps"
  using reset_loop_names [of ps r ps1] by (metis length_map)

lemma on_player_index: "index_in_range rh \<Longrightarrow> index_in_range (on_player f i rh)"
  by (auto simp: index_in_range_def on_player_def split: sum.splits)

lemma start_round_index:
  "start_round rng rh = (r, rh1) \<Longrightarrow> index_in_range rh \<Longrightarrow> index_in_range rh1"
  by (auto simp: index_in_range_def start_round_def Let_def
      dest: roll_all_length split: prod.splits option.splits sum.splits if_splits)

lemma next_player_index:
  "next_player rh = (r, rh1) \<Longrightarrow> index_in_range rh \<Longrightarrow> index_in_range rh1"
proof -
  assume r: "next_player rh = (r, rh1)" and i: "index_in_range rh"
  then have c: "current_player_id rh < length (players rh)" by (simp add: index_in_range_def)
  then have n: "0 < length (players rh)" by (cases "players rh") simp_all
  from next_player_scan [OF c] r n show ?thesis
    by (auto simp: index_in_range_def Let_def)
qed

lemma make_bid_index:
  "make_bid rh n q v = (r, rh1) \<Longrightarrow> index_in_range rh \<Longrightarrow> index_in_range rh1"
proof -
  have "index_in_range (rh\<lparr>current_bid := b\<rparr>) = index_in_range rh" for b
    by (simp add: index_in_range_def)
  then show "make_bid rh n q v = (r, rh1) \<Longrightarrow> index_in_range rh \<Longrightarrow> index_in_range rh1"
    by (auto simp: make_bid_def dest!: next_player_index split: sum.splits if_splits)
qed

lemma apply_penalty_index:
  "apply_penalty rh i = (r, rh1) \<Longrightarrow> index_in_range rh \<Longrightarrow> index_in_range rh1"
  by (auto simp: index_in_range_def apply_penalty_def split: sum.splits)

lemma reset_players_index:
  "reset_players_after_round rh = (r, rh1) \<Longrightarrow> index_in_range rh \<Longrightarrow> index_in_range rh1"
  by (auto simp: index_in_range_def reset_players_after_round_def dest: reset_loop_length
      split: prod.splits option.splits)

lemma challenge_index:
  assumes "challenge_and_end_round rng rh n = (r, rh')" and "index_in_range rh"
  shows "index_in_range rh'"
  using assms unfolding challenge_and_end_round_def Let_def
  by (auto split: option.splits sum.splits if_splits prod.splits outcome.splits
      dest: apply_penalty_index reset_players_index start_round_index)

lemma rh_exec_index: "index_in_range rh \<Longrightarrow> index_in_range (rh_exec op rh)"
proof (cases op)
  case (RH_start_round rng)
  assume "index_in_range rh"
  then show ?thesis using RH_start_round start_round_index [of rng rh]
    by (cases "start_round rng rh") simp
next
  case (RH_make_bid n q v)
  assume "index_in_range rh"
  then show ?thesis using RH_make_bid make_bid_index [of rh n q v]
    by (cases "make_bid rh n q v") simp
next
  case RH_next_player
  assume "index_in_range rh"
  then show ?thesis using RH_next_player next_player_index [of rh] by (cases "next_player rh") simp
next
  case (RH_challenge_and_end_round rng n)
  assume "index_in_range rh"
  then show ?thesis using RH_challenge_and_end_round challenge_index [of rng rh n]
    by (cases "challenge_and_end_round rng rh n") simp
next
  case (RH_apply_penalty i)
  assume "index_in_range rh"
  then show ?thesis using RH_apply_penalty apply_penalty_index [of rh i]
    by (cases "apply_penalty rh i") simp
next
  case RH_reset_players_after_round
  assume "index_in_range rh"
  then show ?thesis using RH_reset_players_after_round reset_players_index [of rh]
    by (cases "reset_players_after_round rh") simp
qed (simp_all add: on_player_index)

lemma exec_index:
  assumes "index_in_range (round_handler g)"
  shows "index_in_range (round_handler (exec op g))"
proof (cases op)
  case (GH_play_bid_turn i q v)
  then show ?thesis
    using assms make_bid_index [of "round_handler g" "name (gh_players g ! i)" q v]
    by (cases "make_bid (round_handler g) (name (gh_players g ! i)) q v")
       (simp add: play_bid_turn_def)
next
  case (GH_play_challenge_turn rng i)
  then show ?thesis
    using assms challenge_index [of rng "round_handler g" "name (gh_players g ! i)"]
    by (cases "challenge_and_end_round rng (round_handler g) (name (gh_players g ! i))")
       (simp add: play_challenge_turn_def)
next
  case (GH_start_round rng)
  then show ?thesis
    using assms start_round_index [of rng "round_handler g"]
    by (cases "start_round rng (round_handler g)") (simp add: gh_start_round_def)
qed (use assms rh_exec_index [of "round_handler g" op] in simp_all)

lemma run_index:
  "index_in_range (round_handler g) \<Longrightarrow> index_in_range (round_handler (run ops g))"
  unfolding run_def by (induction ops arbitrary: g) (simp_all add: exec_index)

lemma new_game_index:
  "GameHandler_init names dc = Inr g \<Longrightarrow> names \<noteq> [] \<Longrightarrow> index_in_range (round_handler g)"
proof -
  have "create_players dc ns = Inr ps \<Longrightarrow> length ps = length ns" for ns ps
    by (induction ns arbitrary: ps) (auto split: sum.splits)
  then show "GameHandler_init names dc = Inr g \<Longrightarrow> names \<noteq> [] \<Longrightarrow> index_in_range (round_handler g)"
    by (auto simp: GameHandler_init_def index_in_range_def RoundHandler_init_def
        split: if_splits sum.splits)
qed

lemma make_bid_failure_keeps_state:
  assumes "current_player_id rh < length (players rh)" and "make_bid rh pn q v = (Raises e, rh')"
  shows "rh' = rh"
proof -
  have "next_player (rh\<lparr>current_bid := Some b\<rparr>) \<noteq> (Raises e, rh')" for b
  proof -
    obtain rh2 where "next_player (rh\<lparr>current_bid := Some b\<rparr>) = (Returns (), rh2)"
      using next_player_always_returns [of "rh\<lparr>current_bid := Some b\<rparr>"] assms(1) by auto
    then show ?thesis by simp
  qed
  with assms(2) show ?thesis
    by (auto simp: make_bid_def split: sum.splits if_splits)
qed

section \<open>Bids\<close>

text \<open>
  Claim C1, as the code has it. \<^verbatim>\<open>make_bid\<close> compares the candidate with the current bid
  through \<^verbatim>\<open>is_higher_bid\<close>, which is lexicographic: for a player found by name, ACTIVE,
  with a face value between 1 and the face count of the player's dice and a quantity of at
  most \<^verbatim>\<open>dice_count\<close>, and a current player index inside the list,
  \<^item> with no current bid, every candidate of quantity at least 1 is accepted and becomes
    the current bid;
  \<^item> with a current bid (of quantity at least 1, as the constructor of Bid guarantees),
    the candidate is accepted exactly when its quantity is higher, or its quantity is
    equal and its face value is higher; otherwise the call raises \<^verbatim>\<open>ValueError\<close> and
    leaves the round handler as it was.
\<close>

theorem make_bid_accepts_iff:
  assumes "find_name (players rh) pn = Some i"
    and "state (players rh ! i) = ACTIVE"
    and "get_die_value (players rh ! i) = Inr m"
    and "1 \<le> v" and "v \<le> m" and "q \<le> dice_count rh"
    and "current_player_id rh < length (players rh)"
  shows "(current_bid rh = None \<and> 1 \<le> q \<longrightarrow>
            (\<exists>rh'. make_bid rh pn q v = (Returns (), rh')
                   \<and> current_bid rh' = Some \<lparr>quantity = q, bid_value = v, player = i\<rparr>))
       \<and> (current_bid rh = Some cb \<and> 1 \<le> quantity cb \<longrightarrow>
            (if quantity cb < q \<or> (q = quantity cb \<and> bid_value cb < v)
             then \<exists>rh'. make_bid rh pn q v = (Returns (), rh')
                        \<and> current_bid rh' = Some \<lparr>quantity = q, bid_value = v, player = i\<rparr>
             else make_bid rh pn q v =
                    (Raises (ValueError (if q < 1 then ''Quantity and value must be greater than 0''
                                         else ''Bid must be higher than the previous one!'')), rh)))"
proof -
  let ?nb = "\<lparr>quantity = q, bid_value = v, player = i\<rparr>"
  have np: "\<exists>rh'. next_player (rh\<lparr>current_bid := Some ?nb\<rparr>) = (Returns (), rh')
                 \<and> current_bid rh' = Some ?nb"
    using next_player_always_returns [of "rh\<lparr>current_bid := Some ?nb\<rparr>"] assms(7) by simp
  have pre: "1 \<le> q \<Longrightarrow> make_bid rh pn q v =
          (if \<not> is_higher_bid ?nb (current_bid rh)
           then (Raises (ValueError ''Bid must be higher than the previous one!''), rh)
           else next_player (rh\<lparr>current_bid := Some ?nb\<rparr>))"
    using assms by (simp add: make_bid_def get_player_by_name_def Bid_init_def is_active_def)
  have low: "\<not> 1 \<le> q \<Longrightarrow> make_bid rh pn q v =
                    (Raises (ValueError (if q < 1 then ''Quantity and value must be greater than 0''
                                         else ''Bid must be higher than the previous one!'')), rh)"
    using assms by (simp add: make_bid_def get_player_by_name_def Bid_init_def is_active_def)
  have first: "current_bid rh = None \<and> 1 \<le> q \<longrightarrow>
            (\<exists>rh'. make_bid rh pn q v = (Returns (), rh') \<and> current_bid rh' = Some ?nb)"
    using pre np by (simp add: is_higher_bid_def)
  have later: "current_bid rh = Some cb \<and> 1 \<le> quantity cb \<longrightarrow>
            (if quantity cb < q \<or> (q = quantity cb \<and> bid_value cb < v)
             then \<exists>rh'. make_bid rh pn q v = (Returns (), rh') \<and> current_bid rh' = Some ?nb
             else make_bid rh pn q v =
                    (Raises (ValueError (if q < 1 then ''Quantity and value must be greater than 0''
                                         else ''Bid must be higher than the previous one!'')), rh))"
  proof (intro impI, elim conjE)
    assume cb: "current_bid rh = Some cb" "1 \<le> quantity cb"
    show "if quantity cb < q \<or> (q = quantity cb \<and> bid_value cb < v)
             then \<exists>rh'. make_bid rh pn q v = (Returns (), rh') \<and> current_bid rh' = Some ?nb
             else make_bid rh pn q v =
                    (Raises (ValueError (if q < 1 then ''Quantity and value must be greater than 0''
                                         else ''Bid must be higher than the previous one!'')), rh)"
    proof (cases "quantity cb < q \<or> (q = quantity cb \<and> bid_value cb < v)")
      case True
      then have "1 \<le> q" using cb(2) by auto
      with True pre np cb(1) show ?thesis by (auto simp: is_higher_bid_def)
    next
      case False
      show ?thesis
      proof (cases "1 \<le> q")
        case True
        with False pre cb(1) show ?thesis by (auto simp: is_higher_bid_def)
      next
        case q: False
        with False low show ?thesis by auto
      qed
    qed
  qed
  from first later show ?thesis by blast
qed

theorem make_bid_accepts_iff_witness:
  "fst (make_bid bid_standing ''Jan'' 5 2) = Returns ()
   \<and> current_bid (snd (make_bid bid_standing ''Jan'' 5 2))
        = Some \<lparr>quantity = 5, bid_value = 2, player = 0\<rparr>
   \<and> make_bid bid_standing ''Jan'' 2 6 =
        (Raises (ValueError ''Bid must be higher than the previous one!''), bid_standing)
   \<and> fst (make_bid (bid_standing\<lparr>current_bid := None\<rparr>) ''Jan'' 1 1) = Returns ()"
proof -
  have h1: "find_name (players bid_standing) ''Jan'' = Some 0"
    and h2: "state (players bid_standing ! 0) = ACTIVE"
    and h3: "get_die_value (players bid_standing ! 0) = Inr 6"
    and h6: "current_player_id bid_standing < length (players bid_standing)"
    and h7: "current_bid bid_standing = Some \<lparr>quantity = 5, bid_value = 1, player = 1\<rparr>"
    and h8: "dice_count bid_standing = 10"
    by (simp_all add: bid_standing_def jan_and_kowalski_def example_player_def
        get_die_value_def numeral_eq_Suc)
  have a: "(5::int) \<le> dice_count bid_standing" "(2::int) \<le> dice_count bid_standing"
    using h8 by simp_all
  from make_bid_accepts_iff [OF h1 h2 h3 _ _ a(1) h6, of 2
      "\<lparr>quantity = 5, bid_value = 1, player = 1\<rparr>"] h7
  have acc: "\<exists>rh'. make_bid bid_standing ''Jan'' 5 2 = (Returns (), rh') \<and>
               current_bid rh' = Some \<lparr>quantity = 5, bid_value = 2, player = 0\<rparr>"
    by simp
  from make_bid_accepts_iff [OF h1 h2 h3 _ _ a(2) h6, of 6
      "\<lparr>quantity = 5, bid_value = 1, player = 1\<rparr>"] h7
  have rej: "make_bid bid_standing ''Jan'' 2 6 =
        (Raises (ValueError ''Bid must be higher than the previous one!''), bid_standing)"
    by simp
  let ?rh = "bid_standing\<lparr>current_bid := None\<rparr>"
  have "find_name (players ?rh) ''Jan'' = Some 0" "state (players ?rh ! 0) = ACTIVE"
    "get_die_value (players ?rh ! 0) = Inr 6" "(1::int) \<le> 1" "(1::int) \<le> 6"
    "1 \<le> dice_count ?rh" "current_player_id ?rh < length (players ?rh)"
    using h1 h2 h3 h6 h8 by simp_all
  from make_bid_accepts_iff [OF this]
  have fst: "\<exists>rh'. make_bid ?rh ''Jan'' 1 1 = (Returns (), rh')" by auto
  from acc rej fst show ?thesis by auto
qed

text \<open>
  Claim C1 as the specification states it fails: against the current bid of five ones, the
  candidate of two sixes has the higher face value, so the disjunctive rule of
  \<^verbatim>\<open>Bid.__gt__\<close> ranks it higher, and \<^verbatim>\<open>make_bid\<close> rejects it.
\<close>

theorem make_bid_rejects_higher_face:
  "Bid_gt \<lparr>quantity = 2, bid_value = 6, player = 0\<rparr> \<lparr>quantity = 5, bid_value = 1, player = 1\<rparr>
   \<and> make_bid bid_standing ''Jan'' 2 6 =
        (Raises (ValueError ''Bid must be higher than the previous one!''), bid_standing)"
  by (simp add: Bid_gt_def bid_standing_def jan_and_kowalski_def example_player_def make_bid_def
      get_player_by_name_def get_die_value_def Bid_init_def is_active_def is_higher_bid_def
      numeral_eq_Suc)

text \<open>
  Claim C3, as the code has it. Equality of bids compares the authors' names as well, so
  two bids are comparable by \<open>>\<close>, \<open>==\<close> or \<open><\<close> when they have the same author; equal bids
  are neither greater nor less; \<open>A > B\<close> is \<open>B < A\<close>; and every bid is higher than no bid.
\<close>

theorem bid_comparison_laws:
  "(name (ps ! player a) = name (ps ! player b) \<longrightarrow> Bid_gt a b \<or> Bid_eq ps a b \<or> Bid_lt a b)
   \<and> (Bid_eq ps a b \<longrightarrow> \<not> Bid_gt a b \<and> \<not> Bid_lt a b)
   \<and> Bid_gt a b = Bid_lt b a
   \<and> is_higher_bid a None"
  by (auto simp: Bid_gt_def Bid_lt_def Bid_eq_def is_higher_bid_def)

theorem bid_comparison_laws_witness:
  "Bid_gt \<lparr>quantity = 4, bid_value = 6, player = 0\<rparr> \<lparr>quantity = 3, bid_value = 6, player = 0\<rparr>
   \<and> Bid_lt \<lparr>quantity = 3, bid_value = 6, player = 0\<rparr> \<lparr>quantity = 4, bid_value = 6, player = 0\<rparr>
   \<and> \<not> Bid_eq jan_and_kowalski \<lparr>quantity = 4, bid_value = 6, player = 0\<rparr>
          \<lparr>quantity = 3, bid_value = 6, player = 0\<rparr>
   \<and> Bid_eq jan_and_kowalski \<lparr>quantity = 3, bid_value = 6, player = 0\<rparr>
          \<lparr>quantity = 3, bid_value = 6, player = 0\<rparr>
   \<and> \<not> Bid_gt \<lparr>quantity = 3, bid_value = 6, player = 0\<rparr> \<lparr>quantity = 3, bid_value = 6, player = 0\<rparr>
   \<and> is_higher_bid \<lparr>quantity = 3, bid_value = 6, player = 0\<rparr> None"
  using bid_comparison_laws [of jan_and_kowalski "\<lparr>quantity = 4, bid_value = 6, player = 0\<rparr>"
      "\<lparr>quantity = 3, bid_value = 6, player = 0\<rparr>"]
    bid_comparison_laws [of jan_and_kowalski "\<lparr>quantity = 3, bid_value = 6, player = 0\<rparr>"
      "\<lparr>quantity = 3, bid_value = 6, player = 0\<rparr>"]
  by (simp add: Bid_gt_def Bid_eq_def)

text \<open>
  Claim C3 as the specification states it fails: of Jan's bid of two threes and Kowalski's
  bid of two threes, none is greater, none is less, and they are not equal.
\<close>

theorem bids_of_two_authors_incomparable:
  "\<not> Bid_gt \<lparr>quantity = 2, bid_value = 3, player = 0\<rparr> \<lparr>quantity = 2, bid_value = 3, player = 1\<rparr>
   \<and> \<not> Bid_eq jan_and_kowalski \<lparr>quantity = 2, bid_value = 3, player = 0\<rparr>
          \<lparr>quantity = 2, bid_value = 3, player = 1\<rparr>
   \<and> \<not> Bid_lt \<lparr>quantity = 2, bid_value = 3, player = 0\<rparr> \<lparr>quantity = 2, bid_value = 3, player = 1\<rparr>"
  by (simp add: Bid_gt_def Bid_lt_def Bid_eq_def jan_and_kowalski_def example_player_def)

text \<open>
  \<^verbatim>\<open>make_bid\<close> checks in this order, and the first check that fails decides: no player
  of that name raises \<^verbatim>\<open>Exception("Player not found")\<close> (the specification's NotFound); a
  face value below 1, a face value above the face count of the player's dice and a
  quantity above \<^verbatim>\<open>dice_count\<close> raise \<^verbatim>\<open>ValueError\<close> (InvalidArgument); a player who is not
  ACTIVE raises \<^verbatim>\<open>ValueError\<close> with a message of its own (InvalidState). The face count is
  read from the first die of the player's hand, \<open>m\<close> below, so all this is for a player
  who holds a die. After every call that raises, whatever the exception, the round
  handler is the one that went in: the current bid and the rotation are unchanged.
\<close>

lemma make_bid_failures:
  "(find_name (players rh) pn = None \<longrightarrow>
      make_bid rh pn q v = (Raises (Exception ''Player not found''), rh))
   \<and> (find_name (players rh) pn = Some i \<and> v < 1 \<longrightarrow>
      make_bid rh pn q v = (Raises (ValueError ''Bid value must be greater than 0''), rh))
   \<and> (find_name (players rh) pn = Some i \<and> 1 \<le> v
        \<and> get_die_value (players rh ! i) = Inr m \<and> m < v \<longrightarrow>
      make_bid rh pn q v =
        (Raises (ValueError ''Bid value must be less or equal to the value of dice in game''), rh))
   \<and> (find_name (players rh) pn = Some i \<and> 1 \<le> v
        \<and> get_die_value (players rh ! i) = Inr m \<and> v \<le> m \<and> dice_count rh < q \<longrightarrow>
      make_bid rh pn q v =
        (Raises (ValueError
           ''Number of dice must be equal or less than number of dice in game''), rh))
   \<and> (find_name (players rh) pn = Some i \<and> 1 \<le> v
        \<and> get_die_value (players rh ! i) = Inr m \<and> v \<le> m \<and> q \<le> dice_count rh
        \<and> state (players rh ! i) \<noteq> ACTIVE \<longrightarrow>
      make_bid rh pn q v =
        (Raises (ValueError (''Player '' @ pn @ '' is not active'')), rh))
   \<and> (index_in_range rh \<and> fst (make_bid rh pn q v) = Raises e \<longrightarrow>
      snd (make_bid rh pn q v) = rh)"
proof -
  have "index_in_range rh \<and> fst (make_bid rh pn q v) = Raises e \<longrightarrow>
      snd (make_bid rh pn q v) = rh"
    using make_bid_failure_keeps_state [of rh pn q v e "snd (make_bid rh pn q v)"]
    by (cases "make_bid rh pn q v") (auto simp: index_in_range_def)
  then show ?thesis by (simp add: make_bid_def get_player_by_name_def)
qed

lemma make_bid_failures_example:
  "make_bid bid_standing ''Tomasz'' 6 2 = (Raises (Exception ''Player not found''), bid_standing)
   \<and> make_bid bid_standing ''Jan'' 6 0 =
       (Raises (ValueError ''Bid value must be greater than 0''), bid_standing)
   \<and> make_bid bid_standing ''Jan'' 6 7 =
       (Raises (ValueError ''Bid value must be less or equal to the value of dice in game''),
        bid_standing)
   \<and> make_bid bid_standing ''Jan'' 11 2 =
       (Raises (ValueError ''Number of dice must be equal or less than number of dice in game''),
        bid_standing)
   \<and> make_bid bid_standing ''Kowalski'' 6 2 =
       (Raises (ValueError ''Player Kowalski is not active''), bid_standing)"
proof -
  have ex: "players bid_standing =
      [\<lparr>name = ''Jan'', state = ACTIVE, dice = replicate 5 \<lparr>sides = 6\<rparr>, last_roll = []\<rparr>,
       \<lparr>name = ''Kowalski'', state = WAITING, dice = replicate 5 \<lparr>sides = 6\<rparr>, last_roll = []\<rparr>]"
    and dc: "dice_count bid_standing = 10"
    by (simp_all add: bid_standing_def jan_and_kowalski_def example_player_def)
  have n0: "find_name (players bid_standing) ''Tomasz'' = None"
    and n1: "find_name (players bid_standing) ''Jan'' = Some 0"
    and n2: "find_name (players bid_standing) ''Kowalski'' = Some 1"
    and d1: "get_die_value (players bid_standing ! 0) = Inr 6"
    and d2: "get_die_value (players bid_standing ! 1) = Inr 6"
    and s2: "state (players bid_standing ! 1) \<noteq> ACTIVE"
    by (simp_all add: ex get_die_value_def numeral_eq_Suc)
  show ?thesis
    using make_bid_failures [of bid_standing "''Tomasz''" 6 2 0 6]
      make_bid_failures [of bid_standing "''Jan''" 6 0 0 6]
      make_bid_failures [of bid_standing "''Jan''" 6 7 0 6]
      make_bid_failures [of bid_standing "''Jan''" 11 2 0 6]
      make_bid_failures [of bid_standing "''Kowalski''" 6 2 1 6]
      n0 n1 n2 d1 d2 s2 dc
    by simp
qed

text \<open>
  Claim C7 at its failing input. In a game of two players with one die each, Jan bids,
  Kowalski challenges and Jan loses the die: Jan is found by name, is LOST and holds no
  die. A bid by Jan raises \<^verbatim>\<open>IndexError\<close> when \<^verbatim>\<open>get_die_value\<close> reads the first die of the
  empty hand, before the checks of the quantity and of the state are reached: with a face
  value in range, with a face value of seven, and with a quantity above \<^verbatim>\<open>dice_count\<close>.
\<close>

theorem make_bid_of_eliminated_player:
  "round_handler
     (run [GH_start_round (\<lambda>p i. 1), GH_play_bid_turn 0 1 1, GH_play_challenge_turn (\<lambda>p i. 1) 1]
        (new_game [''Jan'', ''Kowalski''] 1)) = last_standing
   \<and> find_name (players last_standing) ''Jan'' = Some 0
   \<and> state (players last_standing ! 0) = LOST
   \<and> dice (players last_standing ! 0) = []
   \<and> dice_count last_standing = 2
   \<and> make_bid last_standing ''Jan'' 1 1 =
        (Raises (IndexError ''list index out of range''), last_standing)
   \<and> make_bid last_standing ''Jan'' 1 7 =
        (Raises (IndexError ''list index out of range''), last_standing)
   \<and> make_bid last_standing ''Jan'' 3 1 =
        (Raises (IndexError ''list index out of range''), last_standing)"
  by (simp add: last_standing_def eval_defs)

section \<open>Turn rotation\<close>

text \<open>
  Claim C8, as the code has it. With the current player index inside the list,
  \<^verbatim>\<open>next_player\<close> always returns (the actor it has just demoted is WAITING, so the loop
  ends). The player it selects is ACTIVE afterwards. When it selects another player than
  the previous actor, that player was WAITING before the call and the previous actor is
  WAITING afterwards; it selects the previous actor again exactly when no other player is
  WAITING. Every player but these two is as before. When no player other than the actor
  was ACTIVE before the call, exactly one player is ACTIVE after it.
\<close>

theorem next_player_rotation:
  assumes "current_player_id rh < length (players rh)"
  shows "\<exists>rh'. next_player rh = (Returns (), rh') \<and>
     length (players rh') = length (players rh) \<and>
     current_player_id rh' < length (players rh) \<and>
     state (players rh' ! current_player_id rh') = ACTIVE \<and>
     (current_player_id rh' \<noteq> current_player_id rh \<longrightarrow>
        state (players rh ! current_player_id rh') = WAITING \<and>
        state (players rh' ! current_player_id rh) = WAITING) \<and>
     ((current_player_id rh' = current_player_id rh) =
        (\<forall>k<length (players rh). k \<noteq> current_player_id rh \<longrightarrow>
            state (players rh ! k) \<noteq> WAITING)) \<and>
     (\<forall>k<length (players rh). k \<noteq> current_player_id rh \<and> k \<noteq> current_player_id rh' \<longrightarrow>
         players rh' ! k = players rh ! k) \<and>
     map name (players rh') = map name (players rh) \<and>
     map dice (players rh') = map dice (players rh) \<and>
     map last_roll (players rh') = map last_roll (players rh) \<and>
     round_number rh' = round_number rh \<and> current_bid rh' = current_bid rh \<and>
     dice_count rh' = dice_count rh \<and>
     ((\<forall>k<length (players rh). k \<noteq> current_player_id rh \<longrightarrow>
          state (players rh ! k) \<noteq> ACTIVE) \<longrightarrow> one_active (players rh'))"
proof -
  let ?c = "current_player_id rh" and ?ps = "players rh" and ?n = "length (players rh)"
  define ps1 where "ps1 = ?ps[?c := (?ps ! ?c)\<lparr>state := WAITING\<rparr>]"
  from next_player_scan [OF assms] obtain d where
    ret: "next_player rh =
            (Returns (), rh\<lparr>players := ps1[(?c + 1 + d) mod ?n := (ps1 ! ((?c + 1 + d) mod ?n))\<lparr>state := ACTIVE\<rparr>],
                            current_player_id := (?c + 1 + d) mod ?n\<rparr>)"
    and hit: "state (ps1 ! ((?c + 1 + d) mod ?n)) = WAITING"
    and first: "\<forall>d'<d. state (ps1 ! ((?c + 1 + d') mod ?n)) \<noteq> WAITING"
    unfolding Let_def ps1_def by blast
  define j where "j = (?c + 1 + d) mod ?n"
  define rh' where "rh' = rh\<lparr>players := ps1[j := (ps1 ! j)\<lparr>state := ACTIVE\<rparr>], current_player_id := j\<rparr>"
  have n: "0 < ?n" using assms by (cases "players rh") simp_all
  have j: "j < ?n" unfolding j_def using n by simp
  have len1: "length ps1 = ?n" by (simp add: ps1_def)
  have r: "next_player rh = (Returns (), rh')" using ret by (simp add: rh'_def j_def)
  have cur: "current_player_id rh' = j" by (simp add: rh'_def)
  have pl: "players rh' = ps1[j := (ps1 ! j)\<lparr>state := ACTIVE\<rparr>]" by (simp add: rh'_def)
  have hitj: "state (ps1 ! j) = WAITING" using hit by (simp add: j_def)
  have other: "k \<noteq> ?c \<Longrightarrow> ps1 ! k = ?ps ! k" for k by (simp add: ps1_def)
  have a: "length (players rh') = ?n" by (simp add: pl len1)
  have b: "state (players rh' ! j) = ACTIVE" using j by (simp add: pl len1)
  have c: "j \<noteq> ?c \<longrightarrow> state (?ps ! j) = WAITING \<and> state (players rh' ! ?c) = WAITING"
    using hitj other assms by (auto simp: pl ps1_def)
  have e: "(j = ?c) = (\<forall>k<?n. k \<noteq> ?c \<longrightarrow> state (?ps ! k) \<noteq> WAITING)"
  proof
    assume eq: "j = ?c"
    show "\<forall>k<?n. k \<noteq> ?c \<longrightarrow> state (?ps ! k) \<noteq> WAITING"
    proof (intro allI impI notI)
      fix k assume k: "k < ?n" "k \<noteq> ?c" "state (?ps ! k) = WAITING"
      from step_back [OF assms k(1,2)] obtain dk where dk: "dk < ?n - 1" "(?c + 1 + dk) mod ?n = k"
        by blast
      have "state (ps1 ! ((?c + 1 + dk) mod ?n)) = WAITING" using k other dk by simp
      with first have "\<not> dk < d" by blast
      then have "d < ?n - 1" using dk(1) by simp
      from no_early_return [OF assms this] show False using eq by (simp add: j_def)
    qed
  next
    assume "\<forall>k<?n. k \<noteq> ?c \<longrightarrow> state (?ps ! k) \<noteq> WAITING"
    then show "j = ?c" using hitj j other by metis
  qed
  have f: "\<forall>k<?n. k \<noteq> ?c \<and> k \<noteq> j \<longrightarrow> players rh' ! k = ?ps ! k"
    by (simp add: pl ps1_def)
  have g: "(\<forall>k<?n. k \<noteq> ?c \<longrightarrow> state (?ps ! k) \<noteq> ACTIVE) \<longrightarrow> one_active (players rh')"
  proof
    assume na: "\<forall>k<?n. k \<noteq> ?c \<longrightarrow> state (?ps ! k) \<noteq> ACTIVE"
    have "\<forall>k<length (players rh'). (state (players rh' ! k) = ACTIVE) = (k = j)"
    proof (intro allI impI)
      fix k assume k: "k < length (players rh')"
      show "(state (players rh' ! k) = ACTIVE) = (k = j)"
      proof (cases "k = j")
        case True then show ?thesis using b by simp
      next
        case False
        then have "players rh' ! k = ps1 ! k" by (simp add: pl)
        moreover have "state (ps1 ! k) \<noteq> ACTIVE"
          using na k a assms by (cases "k = ?c") (simp_all add: ps1_def)
        ultimately show ?thesis using False by simp
      qed
    qed
    with j a show "one_active (players rh')" by (intro one_active_at [of j]) simp_all
  qed
  have keep: "map h (ps[i := (ps ! i)\<lparr>state := s\<rparr>]) = map h ps"
    if "\<And>p s. h (p\<lparr>state := s\<rparr>) = h p" for h :: "Player \<Rightarrow> 'b" and ps i s
    by (rule map_update_keep) (simp add: that)
  have m: "map name (players rh') = map name ?ps" "map dice (players rh') = map dice ?ps"
    "map last_roll (players rh') = map last_roll ?ps"
    by (simp_all add: pl ps1_def keep)
  have fr: "round_number rh' = round_number rh" "current_bid rh' = current_bid rh"
    "dice_count rh' = dice_count rh"
    by (simp_all add: rh'_def)
  show ?thesis
    by (rule exI [of _ rh']) (use r a j b c e f g m fr in \<open>simp only: cur simp_thms\<close>)
qed

theorem next_player_rotation_witness:
  "current_player_id two_waiting < length (players two_waiting)
   \<and> fst (next_player two_waiting) = Returns ()
   \<and> map state (players (snd (next_player two_waiting))) = [WAITING, ACTIVE]
   \<and> one_active (players (snd (next_player two_waiting)))"
proof -
  have h: "current_player_id two_waiting < length (players two_waiting)"
    by (simp add: two_waiting_def RoundHandler_init_def)
  have na: "\<forall>k<length (players two_waiting). k \<noteq> current_player_id two_waiting \<longrightarrow>
              state (players two_waiting ! k) \<noteq> ACTIVE"
    by (simp add: two_waiting_def RoundHandler_init_def example_player_def less_Suc_eq)
  from next_player_rotation [OF h] na
  have "one_active (players (snd (next_player two_waiting)))" by auto
  moreover have "fst (next_player two_waiting) = Returns ()
     \<and> map state (players (snd (next_player two_waiting))) = [WAITING, ACTIVE]"
    by (simp add: two_waiting_def RoundHandler_init_def example_player_def next_player_def
        find_waiting.simps)
  ultimately show ?thesis using h by simp
qed

text \<open>
  Claim C8 as the specification states it fails. In a game of two players with one die
  each, Jan bids, Kowalski challenges, Jan loses the die and the challenge raises:
  Kowalski is the actor and the only player left. After the demotion the list
  holds a WAITING player (Kowalski), \<^verbatim>\<open>next_player\<close> returns, and the previous actor is
  ACTIVE again, not WAITING. And of three players, Jan the actor, Kowalski ACTIVE as
  well and Tomasz WAITING, two are ACTIVE after the call.
\<close>

theorem next_player_reselects_actor:
  "round_handler
     (run [GH_start_round (\<lambda>p i. 1), GH_play_bid_turn 0 1 1, GH_play_challenge_turn (\<lambda>p i. 1) 1]
        (new_game [''Jan'', ''Kowalski''] 1)) = last_standing
   \<and> current_player_id last_standing < length (players last_standing)
   \<and> list_ex (\<lambda>p. state p = WAITING)
        ((players last_standing)[current_player_id last_standing :=
            (players last_standing ! current_player_id last_standing)\<lparr>state := WAITING\<rparr>])
   \<and> fst (next_player last_standing) = Returns ()
   \<and> state (players (snd (next_player last_standing)) ! current_player_id last_standing) = ACTIVE
   \<and> rh_exec (Player_set_state 1 ACTIVE) (rh_exec (Player_set_state 0 ACTIVE)
         (RoundHandler_init (map (\<lambda>n. example_player n WAITING 5 [])
            [''Jan'', ''Kowalski'', ''Tomasz'']))) = two_active
   \<and> fst (next_player two_active) = Returns ()
   \<and> map state (players (snd (next_player two_active))) = [WAITING, ACTIVE, ACTIVE]
   \<and> \<not> one_active (players (snd (next_player two_active)))"
  by (simp add: last_standing_def two_active_def one_active_def eval_defs)

section \<open>The state LOST\<close>

text \<open>
  \<^verbatim>\<open>set_state\<close> refuses to change a LOST player, and an operation that does not call
  \<^verbatim>\<open>next_player\<close>, or calls it while the player at the rotation pointer is not LOST, keeps
  every LOST player LOST. \<^verbatim>\<open>next_player\<close> itself assigns to the player at the rotation
  pointer without looking at the state.
\<close>

lemma set_state_lost:
  "state p = LOST \<Longrightarrow> set_state p s = Inl (Exception ''Player cannot come back after losing'')"
  by (simp add: set_state_def)

lemma lost_kept_refl: "lost_kept ps ps"
  by (simp add: lost_kept_def)

lemma lost_kept_trans: "lost_kept ps ps1 \<Longrightarrow> lost_kept ps1 ps2 \<Longrightarrow> lost_kept ps ps2"
  by (simp add: lost_kept_def)

lemma lost_kept_update:
  "(i < length ps \<Longrightarrow> state (ps ! i) = LOST \<Longrightarrow> state p = LOST) \<Longrightarrow> lost_kept ps (ps[i := p])"
proof -
  assume h: "i < length ps \<Longrightarrow> state (ps ! i) = LOST \<Longrightarrow> state p = LOST"
  have "state (ps[i := p] ! k) = LOST" if "k < length ps" "state (ps ! k) = LOST" for k
    using that h by (cases "k = i") simp_all
  then show ?thesis by (simp add: lost_kept_def)
qed

lemma lost_kept_Cons:
  "lost_kept (p # ps) (p1 # ps1) = ((state p = LOST \<longrightarrow> state p1 = LOST) \<and> lost_kept ps ps1)"
proof
  assume a: "lost_kept (p # ps) (p1 # ps1)"
  then have "state p = LOST \<longrightarrow> state p1 = LOST" by (auto simp: lost_kept_def)
  moreover have "state (ps1 ! k) = LOST" if "k < length ps" "state (ps ! k) = LOST" for k
    using a that by (auto simp: lost_kept_def dest!: spec [of _ "Suc k"])
  ultimately show "(state p = LOST \<longrightarrow> state p1 = LOST) \<and> lost_kept ps ps1"
    using a by (simp add: lost_kept_def)
next
  assume a: "(state p = LOST \<longrightarrow> state p1 = LOST) \<and> lost_kept ps ps1"
  have "state ((p1 # ps1) ! k) = LOST" if "k < length (p # ps)" "state ((p # ps) ! k) = LOST" for k
    using a that by (cases k) (auto simp: lost_kept_def)
  then show "lost_kept (p # ps) (p1 # ps1)" using a by (simp add: lost_kept_def)
qed

lemma roll_all_lost: "roll_all rng k ps = (r, ps1) \<Longrightarrow> lost_kept ps ps1"
  by (induction ps arbitrary: k r ps1)
     (auto simp: make_roll_def lost_kept_Cons lost_kept_refl split: sum.splits if_splits prod.splits)

lemma start_round_lost:
  "start_round rng rh = (r, rh1) \<Longrightarrow> lost_kept (players rh) (players rh1)"
proof -
  have "lost_kept ps (ps1[c := (ps1 ! c)\<lparr>state := ACTIVE\<rparr>])"
    if "lost_kept ps ps1" "state (ps1 ! c) \<noteq> LOST" for ps ps1 :: "Player list" and c
    using that(1) by (rule lost_kept_trans) (use that(2) in \<open>auto intro: lost_kept_update\<close>)
  then show "start_round rng rh = (r, rh1) \<Longrightarrow> lost_kept (players rh) (players rh1)"
    by (auto simp: start_round_def Let_def set_state_def dest!: roll_all_lost
        split: prod.splits option.splits sum.splits if_splits)
qed

lemma apply_penalty_lost:
  "apply_penalty rh i = (r, rh1) \<Longrightarrow> lost_kept (players rh) (players rh1)"
  by (auto simp: apply_penalty_def lose_die_def Let_def eliminate_player_def lost_kept_refl
      intro!: lost_kept_update split: sum.splits if_splits)

lemma reset_loop_lost: "reset_loop ps = (r, ps1) \<Longrightarrow> lost_kept ps ps1"
  by (induction ps arbitrary: r ps1)
     (auto simp: reset_roll_def set_state_def eliminate_player_def lost_kept_Cons lost_kept_refl
           split: sum.splits if_splits prod.splits)

lemma reset_players_lost:
  "reset_players_after_round rh = (r, rh1) \<Longrightarrow> lost_kept (players rh) (players rh1)"
  by (auto simp: reset_players_after_round_def dest: reset_loop_lost
      split: prod.splits option.splits)

lemma challenge_lost:
  assumes "challenge_and_end_round rng rh n = (r, rh')"
  shows "lost_kept (players rh) (players rh')"
  using assms unfolding challenge_and_end_round_def Let_def
  by (auto simp: lost_kept_refl split: option.splits sum.splits if_splits prod.splits outcome.splits
      dest!: apply_penalty_lost reset_players_lost start_round_lost intro: lost_kept_trans)

lemma next_player_lost:
  assumes "next_player rh = (r, rh1)"
    and "index_in_range rh \<longrightarrow> state (players rh ! current_player_id rh) \<noteq> LOST"
  shows "lost_kept (players rh) (players rh1)"
proof (cases "index_in_range rh")
  case False
  then show ?thesis using assms(1) by (simp add: next_player_def index_in_range_def lost_kept_refl)
next
  case True
  then have c: "current_player_id rh < length (players rh)" by (simp add: index_in_range_def)
  define ps1 where "ps1 = (players rh)[current_player_id rh :=
                          (players rh ! current_player_id rh)\<lparr>state := WAITING\<rparr>]"
  from next_player_scan [OF c] assms(1) obtain j where
    j: "players rh1 = ps1[j := (ps1 ! j)\<lparr>state := ACTIVE\<rparr>]" "state (ps1 ! j) = WAITING"
    unfolding ps1_def by (auto simp: Let_def)
  have "lost_kept (players rh) ps1"
    unfolding ps1_def using assms(2) True by (intro lost_kept_update) simp
  moreover have "lost_kept ps1 (ps1[j := (ps1 ! j)\<lparr>state := ACTIVE\<rparr>])"
    using j(2) by (intro lost_kept_update) simp
  ultimately show ?thesis using j(1) by (simp add: lost_kept_trans)
qed

lemma make_bid_lost:
  assumes "make_bid rh n q v = (r, rh1)"
    and "index_in_range rh \<longrightarrow> state (players rh ! current_player_id rh) \<noteq> LOST"
  shows "lost_kept (players rh) (players rh1)"
proof -
  have "lost_kept (players rh) (players rh1)"
    if "next_player (rh\<lparr>current_bid := Some b\<rparr>) = (r, rh1)" for b
    using next_player_lost [OF that] assms(2) by (simp add: index_in_range_def)
  then show ?thesis
    using assms(1) by (auto simp: make_bid_def lost_kept_refl split: sum.splits if_splits)
qed

lemma on_player_lost:
  assumes "\<And>p p1. f p = Inr p1 \<Longrightarrow> state p = LOST \<Longrightarrow> state p1 = LOST"
  shows "lost_kept (players rh) (players (on_player f i rh))"
  using assms by (auto simp: on_player_def lost_kept_refl intro!: lost_kept_update split: sum.splits)

lemma rh_exec_lost:
  assumes "rotates op \<longrightarrow> index_in_range rh \<longrightarrow> state (players rh ! current_player_id rh) \<noteq> LOST"
  shows "lost_kept (players rh) (players (rh_exec op rh))"
proof (cases op)
  case (Player_make_roll i e count)
  then show ?thesis by (auto intro!: on_player_lost simp: make_roll_def split: if_splits)
next
  case (Player_lose_die i)
  then show ?thesis by (auto intro!: on_player_lost simp: lose_die_def Let_def split: if_splits)
next
  case (Player_reset_roll i)
  then show ?thesis by (auto intro!: on_player_lost simp: reset_roll_def split: if_splits)
next
  case (Player_set_state i s)
  then show ?thesis by (auto intro!: on_player_lost simp: set_state_def split: if_splits)
next
  case (RH_start_round rng)
  then show ?thesis using start_round_lost [of rng rh] by (cases "start_round rng rh") simp
next
  case (RH_make_bid n q v)
  then show ?thesis using assms make_bid_lost [of rh n q v] by (cases "make_bid rh n q v") simp
next
  case RH_next_player
  then show ?thesis using assms next_player_lost [of rh] by (cases "next_player rh") simp
next
  case (RH_challenge_and_end_round rng n)
  then show ?thesis using challenge_lost [of rng rh n]
    by (cases "challenge_and_end_round rng rh n") simp
next
  case (RH_apply_penalty i)
  then show ?thesis using apply_penalty_lost [of rh i]
    by (cases "apply_penalty rh i") (simp add: lost_kept_refl)
next
  case RH_reset_players_after_round
  then show ?thesis using reset_players_lost [of rh]
    by (cases "reset_players_after_round rh") simp
next
  case (RH_eliminate_player i)
  then show ?thesis by (auto intro!: on_player_lost simp: eliminate_player_def)
qed (simp_all add: lost_kept_refl)

lemma exec_lost:
  assumes "rotates op \<longrightarrow> index_in_range (round_handler g) \<longrightarrow>
             state (gh_players g ! current_player_id (round_handler g)) \<noteq> LOST"
  shows "lost_kept (gh_players g) (gh_players (exec op g))"
proof (cases op)
  case (GH_play_bid_turn i q v)
  then show ?thesis
    using assms make_bid_lost [of "round_handler g" "name (gh_players g ! i)" q v]
    by (cases "make_bid (round_handler g) (name (gh_players g ! i)) q v")
       (simp add: play_bid_turn_def gh_players_def lost_kept_refl)
next
  case (GH_play_challenge_turn rng i)
  then show ?thesis
    using challenge_lost [of rng "round_handler g" "name (gh_players g ! i)"]
    by (cases "challenge_and_end_round rng (round_handler g) (name (gh_players g ! i))")
       (simp add: play_challenge_turn_def gh_players_def lost_kept_refl)
next
  case (GH_start_round rng)
  then show ?thesis
    using start_round_lost [of rng "round_handler g"]
    by (cases "start_round rng (round_handler g)") (simp add: gh_start_round_def gh_players_def)
qed (use assms rh_exec_lost [of op "round_handler g"] in \<open>simp_all add: gh_players_def\<close>)

lemma next_player_revives:
  assumes "index_in_range rh" and "state (players rh ! current_player_id rh) = LOST"
  shows "state (players (snd (next_player rh)) ! current_player_id rh) \<noteq> LOST"
proof -
  have c: "current_player_id rh < length (players rh)"
    using assms(1) by (simp add: index_in_range_def)
  from next_player_scan [OF c] obtain j where
    "snd (next_player rh) =
       rh\<lparr>players := ((players rh)[current_player_id rh :=
                          (players rh ! current_player_id rh)\<lparr>state := WAITING\<rparr>])
                       [j := (((players rh)[current_player_id rh :=
                          (players rh ! current_player_id rh)\<lparr>state := WAITING\<rparr>]) ! j)
                             \<lparr>state := ACTIVE\<rparr>],
           current_player_id := j\<rparr>"
    by (auto simp: Let_def)
  then show ?thesis using c by (cases "j = current_player_id rh") (simp_all add: nth_list_update)
qed

text \<open>
  Claim C5 at its failing input. Jan loses the only die and is LOST; \<^verbatim>\<open>set_state\<close> refuses to
  change that; \<^verbatim>\<open>next_player\<close>, which assigns the state of the player at the current index
  without going through \<^verbatim>\<open>set_state\<close>, makes Jan WAITING again.
\<close>

theorem next_player_revives_lost_player:
  "fst (apply_penalty one_die_each 0) = Returns ()
   \<and> state (players (snd (apply_penalty one_die_each 0)) ! 0) = LOST
   \<and> set_state (players (snd (apply_penalty one_die_each 0)) ! 0) WAITING
        = Inl (Exception ''Player cannot come back after losing'')
   \<and> fst (next_player (snd (apply_penalty one_die_each 0))) = Returns ()
   \<and> state (players (snd (next_player (snd (apply_penalty one_die_each 0)))) ! 0) = WAITING"
  by (simp add: one_die_each_def RoundHandler_init_def example_player_def apply_penalty_def
      lose_die_def get_dice_count_def eliminate_player_def set_state_def next_player_def
      find_waiting.simps)

section \<open>Challenges\<close>

text \<open>
  Claim C6. The count \<^verbatim>\<open>count_dice_value\<close> returns is the number of dice showing the bid's
  face value over all players' last rolls; \<^verbatim>\<open>resolve_challenge\<close> names the bidder when the
  count is strictly below the bid's quantity and the challenger otherwise; and the name
  \<^verbatim>\<open>challenge_and_end_round\<close> returns is the name of that player.
\<close>

theorem challenge_loser:
  assumes "current_bid rh = Some b" and "player b < length (players rh)"
    and "find_name (players rh) pn = Some c"
    and "count_dice_value rh (bid_value b) = Inr C"
  shows "C = (\<Sum>p\<leftarrow>players rh. int (count_list (last_roll p) (bid_value b)))
    \<and> resolve_challenge (player b) c (quantity b) C = (if C < quantity b then player b else c)
    \<and> (\<forall>nm rh'. challenge_and_end_round rng rh pn = (Returns nm, rh') \<longrightarrow>
          nm = name (players rh ! (if C < quantity b then player b else c)))"
proof -
  let ?l = "resolve_challenge (player b) c (quantity b) C"
  have l: "?l = (if C < quantity b then player b else c)" by (simp add: resolve_challenge_def)
  have lt: "?l < length (players rh)"
    using assms(2) find_name_length [OF assms(3)] by (simp add: l)
  have "nm = name (players rh ! ?l)"
    if "challenge_and_end_round rng rh pn = (Returns nm, rh')" for nm rh'
  proof -
    from that obtain rh1 rh2 u1 u2 where
      p: "apply_penalty rh ?l = (Returns u1, rh1)" and
      q: "reset_players_after_round rh1 = (Returns u2, rh2)" and
      r: "(\<exists>u3 rh3. start_round rng rh2 = (Returns u3, rh3) \<and> nm = name (players rh3 ! ?l))
          \<or> nm = name (players rh2 ! ?l)"
      using assms(1,3,4)
      by (auto simp: challenge_and_end_round_def get_player_by_name_def Let_def
          split: if_splits prod.splits outcome.splits sum.splits)
    have n2: "map name (players rh2) = map name (players rh)"
      using apply_penalty_names [OF p] reset_players_names [OF q] by simp
    from r show ?thesis
    proof
      assume "\<exists>u3 rh3. start_round rng rh2 = (Returns u3, rh3) \<and> nm = name (players rh3 ! ?l)"
      then obtain u3 rh3 where s: "start_round rng rh2 = (Returns u3, rh3)"
        and nm: "nm = name (players rh3 ! ?l)" by blast
      have "map name (players rh3) = map name (players rh)"
        using start_round_names [OF s] n2 by simp
      then show ?thesis using nm lt names_nth by blast
    next
      assume "nm = name (players rh2 ! ?l)"
      then show ?thesis using n2 lt names_nth by blast
    qed
  qed
  then show ?thesis using l count_dice_value_Inr [OF assms(4)] by (simp only: ) blast
qed

theorem challenge_loser_witness:
  "count_dice_value (challenged [1, 1, 2, 5, 6]) 4 = Inr 2
   \<and> fst (challenge_and_end_round (\<lambda>p i. 0) (challenged [1, 1, 2, 5, 6]) ''Kowalski'')
        = Returns ''Jan''
   \<and> count_dice_value (challenged [1, 4, 2, 5, 6]) 4 = Inr 3
   \<and> fst (challenge_and_end_round (\<lambda>p i. 0) (challenged [1, 4, 2, 5, 6]) ''Kowalski'')
        = Returns ''Kowalski''"
proof -
  let ?b = "\<lparr>quantity = 3, bid_value = 4, player = 0\<rparr>"
  have b: "current_bid (challenged rs) = Some ?b"
    and p: "player ?b < length (players (challenged rs))"
    and c: "find_name (players (challenged rs)) ''Kowalski'' = Some 1" for rs
    by (simp_all add: challenged_def example_player_def)
  have c2: "count_dice_value (challenged [1, 1, 2, 5, 6]) (bid_value ?b) = Inr 2"
    and c3: "count_dice_value (challenged [1, 4, 2, 5, 6]) (bid_value ?b) = Inr 3"
    by (simp_all add: challenged_def eval_defs numeral_eq_Suc)
  have r2: "fst (challenge_and_end_round (\<lambda>p i. 0) (challenged [1, 1, 2, 5, 6]) ''Kowalski'')
        = Returns ''Jan''"
    and r3: "fst (challenge_and_end_round (\<lambda>p i. 0) (challenged [1, 4, 2, 5, 6]) ''Kowalski'')
        = Returns ''Kowalski''"
    by (simp_all add: challenged_def eval_defs numeral_eq_Suc)
  from challenge_loser [OF b p c c2, of "\<lambda>p i. 0"] challenge_loser [OF b p c c3, of "\<lambda>p i. 0"]
  show ?thesis using c2 c3 r2 r3 by simp
qed

text \<open>
  A LOST player stops the loop of \<^verbatim>\<open>reset_players_after_round\<close>: whenever the penalty takes
  the loser's last die, the challenge raises.
\<close>

lemma reset_loop_raises_on_lost:
  "list_ex (\<lambda>p. state p = LOST) ps \<Longrightarrow>
   \<exists>ps1. reset_loop ps = (Some (Exception ''Player cannot roll dice after losing''), ps1)"
  by (induction ps)
     (auto simp: reset_roll_def set_state_def split: prod.splits sum.splits)

lemma challenge_raises_when_loser_eliminated:
  assumes "current_bid rh = Some b" and "player b < length (players rh)"
    and "find_name (players rh) pn = Some c"
    and "state (players rh ! c) = ACTIVE"
    and "count_dice_value rh (bid_value b) = Inr C"
    and "length (dice (players rh ! (if C < quantity b then player b else c))) = 1"
  shows "fst (challenge_and_end_round rng rh pn)
           = Raises (Exception ''Player cannot roll dice after losing'')"
proof -
  define l where "l = resolve_challenge (player b) c (quantity b) C"
  have l: "l = (if C < quantity b then player b else c)"
    by (simp add: l_def resolve_challenge_def)
  have lt: "l < length (players rh)"
    using assms(2) find_name_length [OF assms(3)] by (simp add: l)
  obtain d where d: "dice (players rh ! l) = [d]"
    using assms(6) unfolding l [symmetric] by (cases "dice (players rh ! l)") auto
  define p1 where "p1 = (players rh ! l)\<lparr>dice := [], state := LOST\<rparr>"
  have pen: "apply_penalty rh l = (Returns (), rh\<lparr>players := (players rh)[l := p1]\<rparr>)"
    using d by (simp add: apply_penalty_def lose_die_def get_dice_count_def eliminate_player_def
        p1_def)
  have "p1 \<in> set ((players rh)[l := p1])" using lt by (simp add: set_update_memI)
  moreover have "state p1 = LOST" by (simp add: p1_def)
  ultimately have "list_ex (\<lambda>p. state p = LOST) ((players rh)[l := p1])"
    unfolding list_ex_iff by blast
  from reset_loop_raises_on_lost [OF this] obtain ps1 where
    "reset_loop ((players rh)[l := p1])
       = (Some (Exception ''Player cannot roll dice after losing''), ps1)" by blast
  then show ?thesis
    using assms(1,3,4,5) pen
    by (simp add: challenge_and_end_round_def get_player_by_name_def l_def [symmetric]
        reset_players_after_round_def)
qed

text \<open>
  When the loser keeps a die, with at least two players and all of them in the game, the
  challenge does what the specification says: it returns the loser's name, the loser has
  one die less and every other hand is as before, the last rolls are those of the new
  round, the round number has gone up, there is no current bid, and the player at the
  rotation pointer is ACTIVE while all others are WAITING.
\<close>

lemma reset_loop_in_play:
  "list_all in_play ps \<Longrightarrow>
   reset_loop ps = (None, map (\<lambda>p. p\<lparr>last_roll := [], state := WAITING\<rparr>) ps)"
  by (induction ps) (auto simp: in_play_def reset_roll_def set_state_def get_dice_count_def)

lemma roll_all_in_play:
  "list_all (\<lambda>p. dice p \<noteq> []) ps \<Longrightarrow>
   \<exists>ps1. roll_all rng k ps = (None, ps1) \<and> length ps1 = length ps \<and>
     (\<forall>i<length ps. ps1 ! i = (ps ! i)\<lparr>last_roll := last_roll (ps ! i) @ fresh_roll (rng (k + i)) (ps ! i)\<rparr>)"
proof (induction ps arbitrary: k)
  case Nil
  then show ?case by simp
next
  case (Cons p ps)
  from Cons.prems have "list_all (\<lambda>p. dice p \<noteq> []) ps" by simp
  from Cons.IH [OF this, of "Suc k"] obtain ps1 where ps1: "roll_all rng (Suc k) ps = (None, ps1)" "length ps1 = length ps"
    "\<forall>i<length ps. ps1 ! i = (ps ! i)\<lparr>last_roll := last_roll (ps ! i) @ fresh_roll (rng (Suc k + i)) (ps ! i)\<rparr>"
    by blast
  have m: "make_roll p (rng k) (get_dice_count p) = Inr (p\<lparr>last_roll := last_roll p @ fresh_roll (rng k) p\<rparr>)"
  proof -
    from Cons.prems have "0 < length (dice p)" by simp
    then show ?thesis by (simp add: make_roll_def get_dice_count_def fresh_roll_def)
  qed
  have "\<forall>i<length (p # ps). ((p\<lparr>last_roll := last_roll p @ fresh_roll (rng k) p\<rparr>) # ps1) ! i
          = ((p # ps) ! i)\<lparr>last_roll := last_roll ((p # ps) ! i) @ fresh_roll (rng (k + i)) ((p # ps) ! i)\<rparr>"
  proof (intro allI impI)
    fix i assume "i < length (p # ps)"
    then show "((p\<lparr>last_roll := last_roll p @ fresh_roll (rng k) p\<rparr>) # ps1) ! i
          = ((p # ps) ! i)\<lparr>last_roll := last_roll ((p # ps) ! i) @ fresh_roll (rng (k + i)) ((p # ps) ! i)\<rparr>"
      using ps1(3) by (cases i) simp_all
  qed
  then show ?case using ps1(1,2) m by simp
qed

lemma challenge_without_elimination:
  assumes bid: "current_bid rh = Some b" and ref: "player b < length (players rh)"
    and ch: "find_name (players rh) pn = Some c" and act: "state (players rh ! c) = ACTIVE"
    and cnt: "count_dice_value rh (bid_value b) = Inr C"
    and l: "l = (if C < quantity b then player b else c)"
    and all_in: "list_all in_play (players rh)"
    and two_dice: "1 < length (dice (players rh ! l))"
    and two_players: "1 < length (players rh)"
    and idx: "index_in_range rh"
  shows "\<exists>rh'. challenge_and_end_round rng rh pn = (Returns (name (players rh ! l)), rh')
     \<and> length (players rh') = length (players rh)
     \<and> (\<forall>k<length (players rh).
           name (players rh' ! k) = name (players rh ! k)
         \<and> dice (players rh' ! k)
             = (if k = l then butlast (dice (players rh ! k)) else dice (players rh ! k))
         \<and> state (players rh' ! k) = (if k = current_player_id rh then ACTIVE else WAITING)
         \<and> last_roll (players rh' ! k) = fresh_roll (rng k) (players rh' ! k))
     \<and> round_number rh' = round_number rh + 1 \<and> current_bid rh' = None
     \<and> current_player_id rh' = current_player_id rh \<and> dice_count rh' = dice_count rh"
proof -
  let ?ps = "players rh" and ?n = "length (players rh)" and ?c = "current_player_id rh"
  have lt: "l < ?n" using ref find_name_length [OF ch] by (simp add: l)
  have cur: "?c < ?n" using idx by (simp add: index_in_range_def)
  have res: "resolve_challenge (player b) c (quantity b) C = l"
    by (simp add: resolve_challenge_def l)
  define pa where "pa = (?ps ! l)\<lparr>dice := butlast (dice (?ps ! l))\<rparr>"
  define psa where "psa = ?ps[l := pa]"
  have ne: "butlast (dice (?ps ! l)) \<noteq> []"
    using two_dice by (cases "dice (?ps ! l)" rule: rev_cases) auto
  have pen: "apply_penalty rh l = (Returns (), rh\<lparr>players := psa\<rparr>)"
    using two_dice ne
    by (auto simp: apply_penalty_def lose_die_def get_dice_count_def Let_def psa_def pa_def)
  have in_l: "in_play (?ps ! l)" using all_in lt by (simp add: list_all_length)
  have in_a: "list_all in_play psa"
    unfolding psa_def list_all_length
  proof (intro allI impI)
    fix k assume "k < length (?ps[l := pa])"
    then have k: "k < ?n" by simp
    show "in_play (?ps[l := pa] ! k)"
    proof (cases "k = l")
      case True
      then show ?thesis using in_l ne lt by (simp add: in_play_def pa_def)
    next
      case False
      then show ?thesis using all_in k by (simp add: list_all_length)
    qed
  qed
  define psb where "psb = map (\<lambda>p. p\<lparr>last_roll := [], state := WAITING\<rparr>) psa"
  have rst: "reset_players_after_round (rh\<lparr>players := psa\<rparr>) = (Returns (), rh\<lparr>players := psb\<rparr>)"
    using reset_loop_in_play [OF in_a] by (simp add: reset_players_after_round_def psb_def)
  have lenb: "length psb = ?n" by (simp add: psb_def psa_def)
  have "filter (\<lambda>p. state p \<noteq> LOST) psb = psb" by (simp add: psb_def)
  then have chk: "check_if_start_next_round (rh\<lparr>players := psb\<rparr>)"
    using two_players lenb by (simp add: check_if_start_next_round_def)
  have "list_all (\<lambda>p. dice p \<noteq> []) psb"
    using in_a by (simp add: psb_def list_all_iff in_play_def)
  from roll_all_in_play [OF this, of rng 0] obtain psc where
    psc: "roll_all rng 0 psb = (None, psc)" "length psc = ?n"
      "\<forall>i<?n. psc ! i = (psb ! i)\<lparr>last_roll := last_roll (psb ! i) @ fresh_roll (rng i) (psb ! i)\<rparr>"
    unfolding lenb by auto
  have b_nth: "psb ! k = (psa ! k)\<lparr>last_roll := [], state := WAITING\<rparr>" if "k < ?n" for k
    using that by (simp add: psb_def psa_def)
  have c_nth: "psc ! k = (psa ! k)\<lparr>last_roll := fresh_roll (rng k) (psa ! k), state := WAITING\<rparr>"
    if "k < ?n" for k
    using that psc(3) b_nth by (simp add: fresh_roll_def)
  define rh' where
    "rh' = rh\<lparr>round_number := round_number rh + 1, players := psc[?c := (psc ! ?c)\<lparr>state := ACTIVE\<rparr>],
               current_bid := None\<rparr>"
  have st: "start_round rng (rh\<lparr>players := psb\<rparr>) = (Returns (), rh')"
    using psc(1,2) cur c_nth [OF cur] by (simp add: start_round_def set_state_def rh'_def Let_def)
  have nm: "name (players rh' ! l) = name (?ps ! l)"
    using lt psc(2) c_nth [OF lt]
    by (cases "l = ?c") (simp_all add: rh'_def psa_def pa_def)
  have run: "challenge_and_end_round rng rh pn = (Returns (name (?ps ! l)), rh')"
    using bid ch act cnt res pen rst chk st nm
    by (simp add: challenge_and_end_round_def get_player_by_name_def)
  have each: "name (players rh' ! k) = name (?ps ! k)
         \<and> dice (players rh' ! k) = (if k = l then butlast (dice (?ps ! k)) else dice (?ps ! k))
         \<and> state (players rh' ! k) = (if k = ?c then ACTIVE else WAITING)
         \<and> last_roll (players rh' ! k) = fresh_roll (rng k) (players rh' ! k)"
    if k: "k < ?n" for k
  proof -
    have a: "name (psa ! k) = name (?ps ! k)"
      "dice (psa ! k) = (if k = l then butlast (dice (?ps ! k)) else dice (?ps ! k))"
      using k lt by (simp_all add: psa_def pa_def nth_list_update)
    have c: "name (psc ! k) = name (psa ! k)" "dice (psc ! k) = dice (psa ! k)"
      "state (psc ! k) = WAITING" "last_roll (psc ! k) = fresh_roll (rng k) (psc ! k)"
      using c_nth [OF k] by (simp_all add: fresh_roll_def)
    have "players rh' ! k = (if k = ?c then (psc ! k)\<lparr>state := ACTIVE\<rparr> else psc ! k)"
      using k psc(2) by (simp add: rh'_def)
    then have "name (players rh' ! k) = name (psc ! k)" "dice (players rh' ! k) = dice (psc ! k)"
      "state (players rh' ! k) = (if k = ?c then ACTIVE else state (psc ! k))"
      "last_roll (players rh' ! k) = last_roll (psc ! k)"
      "fresh_roll (rng k) (players rh' ! k) = fresh_roll (rng k) (psc ! k)"
      by (simp_all add: fresh_roll_def)
    with a c show ?thesis by (simp only: simp_thms)
  qed
  have "length (players rh') = ?n" by (simp add: rh'_def psc(2))
  moreover have "round_number rh' = round_number rh + 1" "current_bid rh' = None"
    "current_player_id rh' = ?c" "dice_count rh' = dice_count rh"
    by (simp_all add: rh'_def)
  ultimately show ?thesis using run each by blast
qed

text \<open>
  Claim C2 at its failing input. Jan and Kowalski hold one die each; Jan bids one die
  showing one, Kowalski challenges. Whatever the dice show, the loser gives up the last die
  and is LOST, \<^verbatim>\<open>reset_players_after_round\<close> calls \<^verbatim>\<open>reset_roll\<close> on that player, and the
  challenge raises instead of returning the loser's name.
\<close>

theorem challenge_raises_on_elimination:
  "GameHandler_init [''Jan'', ''Kowalski''] 1 = Inr (new_game [''Jan'', ''Kowalski''] 1)
   \<and> fst (play_challenge_turn rng2
            (run [GH_start_round rng1, GH_play_bid_turn 0 1 1]
               (new_game [''Jan'', ''Kowalski''] 1)) 1)
       = Raises (Exception ''Player cannot roll dice after losing'')"
  by (simp add: GameHandler_init_def Player_init_def eval_defs)

section \<open>What the operations leave alone\<close>

lemma start_round_dice_count: "dice_count (snd (start_round rng rh)) = dice_count rh"
  by (auto simp: start_round_def Let_def split: prod.splits option.splits sum.splits)

lemma next_player_dice_count: "dice_count (snd (next_player rh)) = dice_count rh"
  by (auto simp: next_player_def Let_def split: option.splits)

lemma make_bid_dice_count: "dice_count (snd (make_bid rh n q v)) = dice_count rh"
  by (auto simp: make_bid_def next_player_dice_count split: sum.splits)

lemma apply_penalty_dice_count: "dice_count (snd (apply_penalty rh i)) = dice_count rh"
  by (auto simp: apply_penalty_def split: sum.splits)

lemma reset_players_dice_count: "dice_count (snd (reset_players_after_round rh)) = dice_count rh"
  by (auto simp: reset_players_after_round_def split: prod.splits option.splits)

lemma challenge_dice_count: "dice_count (snd (challenge_and_end_round rng rh n)) = dice_count rh"
proof -
  have a: "\<And>r rh1 i. apply_penalty rh i = (r, rh1) \<Longrightarrow> dice_count rh1 = dice_count rh"
    using apply_penalty_dice_count by (metis snd_conv)
  have b: "\<And>r rh1 rh2. reset_players_after_round rh1 = (r, rh2) \<Longrightarrow> dice_count rh2 = dice_count rh1"
    using reset_players_dice_count by (metis snd_conv)
  have c: "\<And>r rh2 rh3. start_round rng rh2 = (r, rh3) \<Longrightarrow> dice_count rh3 = dice_count rh2"
    using start_round_dice_count by (metis snd_conv)
  show ?thesis
    unfolding challenge_and_end_round_def Let_def
    by (auto split: option.splits sum.splits prod.splits outcome.splits dest!: a b c)
qed

lemma on_player_dice_count: "dice_count (on_player f i rh) = dice_count rh"
  by (simp add: on_player_def split: sum.splits)

lemma rh_exec_dice_count: "dice_count (rh_exec op rh) = dice_count rh"
  by (cases op)
     (simp_all add: on_player_dice_count start_round_dice_count make_bid_dice_count
        next_player_dice_count challenge_dice_count apply_penalty_dice_count
        reset_players_dice_count)

lemma exec_dice_count: "dice_count (round_handler (exec op g)) = dice_count (round_handler g)"
proof (cases op)
  case (GH_play_bid_turn i q v)
  then show ?thesis
    using make_bid_dice_count [of "round_handler g" "name (gh_players g ! i)" q v]
    by (auto simp: play_bid_turn_def split: prod.splits)
next
  case (GH_play_challenge_turn rng i)
  then show ?thesis
    using challenge_dice_count [of rng "round_handler g" "name (gh_players g ! i)"]
    by (auto simp: play_challenge_turn_def split: prod.splits)
next
  case (GH_start_round rng)
  then show ?thesis
    using start_round_dice_count [of rng "round_handler g"]
    by (auto simp: gh_start_round_def split: prod.splits)
qed (simp_all add: on_player_dice_count start_round_dice_count make_bid_dice_count
        next_player_dice_count challenge_dice_count apply_penalty_dice_count
        reset_players_dice_count)

lemma run_dice_count: "dice_count (round_handler (run ops g)) = dice_count (round_handler g)"
  unfolding run_def by (induction ops arbitrary: g) (simp_all add: exec_dice_count)

lemma create_players_total:
  "create_players dc names = Inr ps \<Longrightarrow>
   sum_list (map get_dice_count ps) = int (length names) * dc"
  by (induction names arbitrary: ps)
     (auto simp: Player_init_def get_dice_count_def algebra_simps split: sum.splits if_splits)

lemma new_game_dice_count:
  "GameHandler_init names dc = Inr g \<Longrightarrow> dice_count (round_handler g) = int (length names) * dc"
  by (auto simp: GameHandler_init_def RoundHandler_init_def dest: create_players_total
      split: if_splits sum.splits)

lemma next_player_no_value_error: "fst (next_player rh) \<noteq> Raises (ValueError s)"
  by (simp add: next_player_def Let_def split: option.splits)

lemma quantity_error_iff:
  assumes "find_name (players rh) pn = Some i" and "1 \<le> v"
    and "get_die_value (players rh ! i) = Inr m" and "v \<le> m"
  shows "(fst (make_bid rh pn q v) =
            Raises (ValueError ''Number of dice must be equal or less than number of dice in game''))
         = (dice_count rh < q)"
  using assms next_player_no_value_error
  by (simp add: make_bid_def get_player_by_name_def Bid_init_def split: sum.splits)

text \<open>
  Claim C4. \<^verbatim>\<open>dice_count\<close> is the sum of the hand sizes when the round handler is built, and
  \<^verbatim>\<open>start_round\<close>, \<^verbatim>\<open>make_bid\<close>, \<^verbatim>\<open>next_player\<close>, \<^verbatim>\<open>challenge_and_end_round\<close> and
  \<^verbatim>\<open>apply_penalty\<close>, like every sequence of operations of the core, leave it as it is, whether
  they return or raise: in a game it is the number of players times the starting hand,
  whatever has happened since. \<^verbatim>\<open>make_bid\<close> checks the quantity against this field: for a
  player found by name and a face value in range, it raises the error of the quantity
  check exactly when the quantity is above \<^verbatim>\<open>dice_count\<close>, and then leaves the round handler
  as it was. With two dice each, after Kowalski has lost one, three dice are in play, a
  bid of four is accepted and a bid of five is rejected.
\<close>

theorem dice_count_never_updated:
  "dice_count (RoundHandler_init ps) = (\<Sum>p\<leftarrow>ps. int (length (dice p)))
   \<and> dice_count (snd (start_round rng rh)) = dice_count rh
   \<and> dice_count (snd (make_bid rh pn q v)) = dice_count rh
   \<and> dice_count (snd (next_player rh)) = dice_count rh
   \<and> dice_count (snd (challenge_and_end_round rng rh pn)) = dice_count rh
   \<and> dice_count (snd (apply_penalty rh i)) = dice_count rh
   \<and> dice_count (round_handler (run ops g)) = dice_count (round_handler g)
   \<and> (GameHandler_init names dc = Inr g \<longrightarrow>
        dice_count (round_handler (run ops g)) = int (length names) * dc)
   \<and> (find_name (players rh) pn = Some j \<and> 1 \<le> v
        \<and> get_die_value (players rh ! j) = Inr m \<and> v \<le> m \<longrightarrow>
        (fst (make_bid rh pn q v) =
           Raises (ValueError ''Number of dice must be equal or less than number of dice in game''))
        = (dice_count rh < q)
        \<and> (dice_count rh < q \<longrightarrow> snd (make_bid rh pn q v) = rh))
   \<and> sum_list (map get_dice_count
        (gh_players (run [RH_apply_penalty 1, GH_start_round rng]
           (new_game [''Jan'', ''Kowalski''] 2)))) = 3
   \<and> fst (play_bid_turn (run [RH_apply_penalty 1, GH_start_round rng]
              (new_game [''Jan'', ''Kowalski''] 2)) 0 4 1) = Returns ()
   \<and> fst (play_bid_turn (run [RH_apply_penalty 1, GH_start_round rng]
              (new_game [''Jan'', ''Kowalski''] 2)) 0 5 1) =
       Raises (ValueError ''Number of dice must be equal or less than number of dice in game'')"
proof -
  have init: "dice_count (RoundHandler_init ps) = (\<Sum>p\<leftarrow>ps. int (length (dice p)))"
    by (simp add: RoundHandler_init_def get_dice_count_def cong: map_cong)
  have game: "GameHandler_init names dc = Inr g \<longrightarrow>
        dice_count (round_handler (run ops g)) = int (length names) * dc"
    by (simp add: run_dice_count new_game_dice_count)
  have ceiling: "find_name (players rh) pn = Some j \<and> 1 \<le> v
        \<and> get_die_value (players rh ! j) = Inr m \<and> v \<le> m \<longrightarrow>
        (fst (make_bid rh pn q v) =
           Raises (ValueError ''Number of dice must be equal or less than number of dice in game''))
        = (dice_count rh < q)
        \<and> (dice_count rh < q \<longrightarrow> snd (make_bid rh pn q v) = rh)"
  proof (intro impI, elim conjE)
    assume a: "find_name (players rh) pn = Some j" "1 \<le> v"
      "get_die_value (players rh ! j) = Inr m" "v \<le> m"
    have "dice_count rh < q \<longrightarrow> snd (make_bid rh pn q v) = rh"
      using a by (simp add: make_bid_def get_player_by_name_def)
    with quantity_error_iff [OF a] show "(fst (make_bid rh pn q v) =
           Raises (ValueError ''Number of dice must be equal or less than number of dice in game''))
        = (dice_count rh < q)
        \<and> (dice_count rh < q \<longrightarrow> snd (make_bid rh pn q v) = rh)" by simp
  qed
  have stale: "sum_list (map get_dice_count
        (gh_players (run [RH_apply_penalty 1, GH_start_round rng]
           (new_game [''Jan'', ''Kowalski''] 2)))) = 3
     \<and> fst (play_bid_turn (run [RH_apply_penalty 1, GH_start_round rng]
              (new_game [''Jan'', ''Kowalski''] 2)) 0 4 1) = Returns ()
     \<and> fst (play_bid_turn (run [RH_apply_penalty 1, GH_start_round rng]
              (new_game [''Jan'', ''Kowalski''] 2)) 0 5 1) =
       Raises (ValueError ''Number of dice must be equal or less than number of dice in game'')"
    by (simp add: eval_defs numeral_eq_Suc)
  show ?thesis
    using init game ceiling stale
    by (simp only: start_round_dice_count make_bid_dice_count next_player_dice_count
        challenge_dice_count apply_penalty_dice_count run_dice_count simp_thms)
qed

theorem dice_count_never_updated_witness:
  "GameHandler_init [''Jan'', ''Kowalski''] 2 = Inr (new_game [''Jan'', ''Kowalski''] 2)
   \<and> dice_count (round_handler after_one_loss) = 4
   \<and> sum_list (map get_dice_count (gh_players after_one_loss)) = 3
   \<and> make_bid (round_handler after_one_loss) ''Jan'' 5 1 =
        (Raises (ValueError ''Number of dice must be equal or less than number of dice in game''),
         round_handler after_one_loss)
   \<and> fst (make_bid (round_handler after_one_loss) ''Jan'' 4 1) = Returns ()"
proof -
  let ?g = "new_game [''Jan'', ''Kowalski''] 2"
  let ?ops = "[RH_apply_penalty 1, GH_start_round (\<lambda>p i. 0)]"
  let ?rh = "round_handler after_one_loss"
  have h: "GameHandler_init [''Jan'', ''Kowalski''] 2 = Inr ?g"
    by (simp add: GameHandler_init_def Player_init_def new_game_def example_player_def)
  have f: "find_name (players ?rh) ''Jan'' = Some 0"
    and d: "get_die_value (players ?rh ! 0) = Inr 6"
    and s: "sum_list (map get_dice_count (gh_players after_one_loss)) = 3"
    and acc: "fst (make_bid ?rh ''Jan'' 4 1) = Returns ()"
    by (simp_all add: after_one_loss_def eval_defs numeral_eq_Suc)
  note t = dice_count_never_updated [where g = ?g and names = "[''Jan'', ''Kowalski'']"
      and dc = 2 and ops = ?ops and rh = ?rh and pn = "''Jan''" and j = 0 and v = 1 and m = 6
      and q = 5 and ps = "[]" and rng = "\<lambda>p i. 0" and i = 0]
  note t7 = t [THEN conjunct2, THEN conjunct2, THEN conjunct2, THEN conjunct2, THEN conjunct2,
      THEN conjunct2, THEN conjunct2]
  from t7 [THEN conjunct1] h have dcnt: "dice_count ?rh = 4"
    by (simp add: after_one_loss_def)
  from t7 [THEN conjunct2, THEN conjunct1] f d dcnt have "fst (make_bid ?rh ''Jan'' 5 1) =
        Raises (ValueError ''Number of dice must be equal or less than number of dice in game'')"
    "snd (make_bid ?rh ''Jan'' 5 1) = ?rh"
    by simp_all
  then have rej: "make_bid ?rh ''Jan'' 5 1 =
        (Raises (ValueError ''Number of dice must be equal or less than number of dice in game''),
         ?rh)"
    by (metis prod.collapse)
  from h dcnt s rej acc show ?thesis by simp
qed

lemma exec_game_state: "game_state (exec op g) = game_state g"
  by (cases op)
     (simp_all add: play_bid_turn_def play_challenge_turn_def gh_start_round_def split: prod.splits)

lemma run_game_state: "game_state (run ops g) = game_state g"
  unfolding run_def by (induction ops arbitrary: g) (simp_all add: exec_game_state)

text \<open>
  Claim C9. A game is RUNNING when it is built, and no operation of the core assigns
  \<^verbatim>\<open>game_state\<close>: after every sequence of operations, returned or raised, the game is
  RUNNING, also when a challenge has found fewer than two players left.
\<close>

theorem game_state_stays_running:
  assumes "GameHandler_init names dc = Inr g"
  shows "game_state g = RUNNING \<and> game_state (run ops g) = RUNNING
         \<and> game_state (exec op g') = game_state g'"
proof -
  have "game_state g = RUNNING"
    using assms by (auto simp: GameHandler_init_def split: if_splits sum.splits)
  then show ?thesis by (simp add: run_game_state exec_game_state)
qed

text \<open>
  A game of one player: Jan bids, challenges the bid, loses a die; the challenge finds one
  player left, returns, and the game is still RUNNING.
\<close>

theorem game_state_stays_running_witness:
  "GameHandler_init [''Jan''] 2 = Inr (new_game [''Jan''] 2)
   \<and> fst (play_challenge_turn (\<lambda>p i. 0)
            (run [GH_start_round (\<lambda>p i. 0), GH_play_bid_turn 0 1 1] (new_game [''Jan''] 2)) 0)
        = Returns ''Jan''
   \<and> \<not> check_if_start_next_round (round_handler
          (run [GH_start_round (\<lambda>p i. 0), GH_play_bid_turn 0 1 1,
                GH_play_challenge_turn (\<lambda>p i. 0) 0] (new_game [''Jan''] 2)))
   \<and> game_state (run [GH_start_round (\<lambda>p i. 0), GH_play_bid_turn 0 1 1,
                       GH_play_challenge_turn (\<lambda>p i. 0) 0] (new_game [''Jan''] 2)) = RUNNING"
proof -
  have h: "GameHandler_init [''Jan''] 2 = Inr (new_game [''Jan''] 2)"
    by (simp add: GameHandler_init_def Player_init_def new_game_def example_player_def)
  have "fst (play_challenge_turn (\<lambda>p i. 0)
            (run [GH_start_round (\<lambda>p i. 0), GH_play_bid_turn 0 1 1] (new_game [''Jan''] 2)) 0)
        = Returns ''Jan''
     \<and> \<not> check_if_start_next_round (round_handler
          (run [GH_start_round (\<lambda>p i. 0), GH_play_bid_turn 0 1 1,
                GH_play_challenge_turn (\<lambda>p i. 0) 0] (new_game [''Jan''] 2)))"
    by (simp add: eval_defs numeral_eq_Suc)
  with h game_state_stays_running [OF h] show ?thesis by simp
qed

section \<open>The state WON\<close>

lemma no_won_iff: "no_won ps = list_all (\<lambda>p. state p \<noteq> WON) ps"
proof -
  have "(state p = WAITING \<or> state p = ACTIVE \<or> state p = LOST) = (state p \<noteq> WON)"
    for p :: Player
    by (cases "state p") simp_all
  then show ?thesis by (simp add: no_won_def)
qed

lemma no_won_update: "no_won ps \<Longrightarrow> state p \<noteq> WON \<Longrightarrow> no_won (ps[i := p])"
  by (auto simp: no_won_iff list_all_iff dest!: set_update_subset_insert [THEN subsetD])

lemma no_won_nth: "no_won ps \<Longrightarrow> i < length ps \<Longrightarrow> state (ps ! i) \<noteq> WON"
  by (simp add: no_won_iff list_all_length)

lemma no_won_Cons: "no_won (p # ps) = (state p \<noteq> WON \<and> no_won ps)"
  by (simp add: no_won_iff)

lemma on_player_no_won:
  assumes "no_won (players rh)" and "\<And>p p1. state p \<noteq> WON \<Longrightarrow> f p = Inr p1 \<Longrightarrow> state p1 \<noteq> WON"
  shows "no_won (players (on_player f i rh))"
proof (cases "length (players rh) \<le> i")
  case True
  then show ?thesis using assms(1) by (simp add: on_player_def)
next
  case False
  then have "state (players rh ! i) \<noteq> WON" using assms(1) by (simp add: no_won_nth)
  then show ?thesis
    using False assms by (auto simp: on_player_def intro!: no_won_update split: sum.splits)
qed

lemma roll_all_no_won: "roll_all rng k ps = (r, ps1) \<Longrightarrow> no_won ps \<Longrightarrow> no_won ps1"
  by (induction ps arbitrary: k r ps1)
     (auto simp: make_roll_def no_won_Cons split: sum.splits if_splits prod.splits)

lemma start_round_no_won:
  "start_round rng rh = (r, rh1) \<Longrightarrow> no_won (players rh) \<Longrightarrow> no_won (players rh1)"
  by (auto simp: start_round_def Let_def set_state_def intro!: no_won_update
      dest: roll_all_no_won split: prod.splits option.splits sum.splits if_splits)

lemma next_player_no_won:
  "next_player rh = (r, rh1) \<Longrightarrow> no_won (players rh) \<Longrightarrow> no_won (players rh1)"
  by (auto simp: next_player_def Let_def intro!: no_won_update split: option.splits if_splits)

lemma make_bid_no_won:
  "make_bid rh n q v = (r, rh1) \<Longrightarrow> no_won (players rh) \<Longrightarrow> no_won (players rh1)"
  by (auto simp: make_bid_def dest: next_player_no_won split: sum.splits if_splits)

lemma lose_die_no_won: "lose_die p = Inr p1 \<Longrightarrow> state p \<noteq> WON \<Longrightarrow> state p1 \<noteq> WON"
  by (auto simp: lose_die_def Let_def split: if_splits)

lemma apply_penalty_no_won:
  "apply_penalty rh i = (r, rh1) \<Longrightarrow> i < length (players rh) \<Longrightarrow> no_won (players rh)
     \<Longrightarrow> no_won (players rh1)"
  by (auto simp: apply_penalty_def eliminate_player_def no_won_nth intro!: no_won_update
      dest: lose_die_no_won split: sum.splits if_splits)

lemma apply_penalty_no_won':
  "apply_penalty rh i = (r, rh1) \<Longrightarrow> no_won (players rh) \<Longrightarrow> no_won (players rh1)"
  by (cases "i < length (players rh)")
     (auto simp: apply_penalty_no_won, auto simp: apply_penalty_def list_update_beyond split: sum.splits)

lemma reset_loop_no_won: "reset_loop ps = (r, ps1) \<Longrightarrow> no_won ps \<Longrightarrow> no_won ps1"
  by (induction ps arbitrary: r ps1)
     (auto simp: reset_roll_def set_state_def eliminate_player_def no_won_Cons
           split: sum.splits if_splits prod.splits)

lemma reset_players_no_won:
  "reset_players_after_round rh = (r, rh1) \<Longrightarrow> no_won (players rh) \<Longrightarrow> no_won (players rh1)"
  by (auto simp: reset_players_after_round_def dest: reset_loop_no_won
      split: prod.splits option.splits)

lemma challenge_no_won:
  assumes "challenge_and_end_round rng rh n = (r, rh')" and "no_won (players rh)"
  shows "no_won (players rh')"
  using assms unfolding challenge_and_end_round_def Let_def
  by (auto split: option.splits sum.splits if_splits prod.splits outcome.splits
      dest: apply_penalty_no_won' reset_players_no_won start_round_no_won)

lemma rh_exec_no_won:
  assumes "no_won (players rh)" and "\<not> sets_won op"
  shows "no_won (players (rh_exec op rh))"
proof (cases op)
  case (Player_make_roll i e count)
  then show ?thesis using assms(1) by (auto intro!: on_player_no_won simp: make_roll_def split: if_splits)
next
  case (Player_lose_die i)
  then show ?thesis using assms(1) by (auto intro!: on_player_no_won dest: lose_die_no_won)
next
  case (Player_reset_roll i)
  then show ?thesis using assms(1) by (auto intro!: on_player_no_won simp: reset_roll_def split: if_splits)
next
  case (Player_set_state i s)
  then show ?thesis using assms by (auto intro!: on_player_no_won simp: set_state_def split: if_splits)
next
  case (RH_start_round rng)
  then show ?thesis using assms(1) start_round_no_won [of rng rh] by (cases "start_round rng rh") simp
next
  case (RH_make_bid n q v)
  then show ?thesis using assms(1) make_bid_no_won [of rh n q v] by (cases "make_bid rh n q v") simp
next
  case RH_next_player
  then show ?thesis using assms(1) next_player_no_won [of rh] by (cases "next_player rh") simp
next
  case (RH_challenge_and_end_round rng n)
  then show ?thesis using assms(1) challenge_no_won [of rng rh n]
    by (cases "challenge_and_end_round rng rh n") simp
next
  case (RH_apply_penalty i)
  then show ?thesis using assms(1) apply_penalty_no_won' [of rh i] by (cases "apply_penalty rh i") simp
next
  case RH_reset_players_after_round
  then show ?thesis using assms(1) reset_players_no_won [of rh]
    by (cases "reset_players_after_round rh") simp
next
  case (RH_eliminate_player i)
  then show ?thesis using assms(1) by (auto intro!: on_player_no_won simp: eliminate_player_def)
qed (use assms(1) in simp_all)

lemma exec_no_won:
  assumes "no_won (gh_players g)" and "\<not> sets_won op"
  shows "no_won (gh_players (exec op g))"
proof (cases op)
  case (GH_play_bid_turn i q v)
  then show ?thesis
    using assms(1) make_bid_no_won [of "round_handler g" "name (gh_players g ! i)" q v]
    by (cases "make_bid (round_handler g) (name (gh_players g ! i)) q v")
       (simp add: play_bid_turn_def gh_players_def)
next
  case (GH_play_challenge_turn rng i)
  then show ?thesis
    using assms(1) challenge_no_won [of rng "round_handler g" "name (gh_players g ! i)"]
    by (cases "challenge_and_end_round rng (round_handler g) (name (gh_players g ! i))")
       (simp add: play_challenge_turn_def gh_players_def)
next
  case (GH_start_round rng)
  then show ?thesis
    using assms(1) start_round_no_won [of rng "round_handler g"]
    by (cases "start_round rng (round_handler g)") (simp add: gh_start_round_def gh_players_def)
qed (use assms rh_exec_no_won [of "round_handler g" op] in \<open>simp_all add: gh_players_def\<close>)

lemma run_no_won:
  "no_won (gh_players g) \<Longrightarrow> list_all (\<lambda>op. \<not> sets_won op) ops \<Longrightarrow> no_won (gh_players (run ops g))"
  unfolding run_def by (induction ops arbitrary: g) (simp_all add: exec_no_won)

lemma create_players_waiting:
  "create_players dc names = Inr ps \<Longrightarrow> list_all (\<lambda>p. state p = WAITING) ps"
  by (induction names arbitrary: ps) (auto simp: Player_init_def split: sum.splits if_splits)

text \<open>
  Claim C10, as the code has it. A player is WAITING when created, and so is every player
  of a new game. \<^verbatim>\<open>set_state\<close> assigns the state it is given, WON included; every other
  operation of Player, RoundHandler and GameHandler, and \<^verbatim>\<open>set_state\<close> with another state,
  keeps all players in WAITING, ACTIVE or LOST.
\<close>

theorem won_only_by_set_state:
  "(Player_init n k = Inr p \<longrightarrow> state p = WAITING)
   \<and> (no_won (players rh) \<and> \<not> sets_won op \<longrightarrow> no_won (players (rh_exec op rh)))
   \<and> (GameHandler_init names dc = Inr g \<and> list_all (\<lambda>op. \<not> sets_won op) ops \<longrightarrow>
        list_all (\<lambda>p. state p = WAITING) (gh_players g) \<and> no_won (gh_players (run ops g)))"
proof -
  have a: "Player_init n k = Inr p \<longrightarrow> state p = WAITING"
    by (auto simp: Player_init_def split: if_splits)
  have b: "no_won (players rh) \<and> \<not> sets_won op \<longrightarrow> no_won (players (rh_exec op rh))"
    using rh_exec_no_won by blast
  have c: "list_all (\<lambda>p. state p = WAITING) (gh_players g) \<and> no_won (gh_players (run ops g))"
    if init: "GameHandler_init names dc = Inr g" and ops: "list_all (\<lambda>op. \<not> sets_won op) ops"
  proof -
    from init obtain ps where ps: "create_players dc names = Inr ps" "gh_players g = ps"
      by (auto simp: GameHandler_init_def gh_players_def RoundHandler_init_def
          split: if_splits sum.splits)
    have w: "list_all (\<lambda>p. state p = WAITING) ps" using ps(1) by (rule create_players_waiting)
    then have "no_won ps" by (simp add: no_won_def list_all_iff)
    then have "no_won (gh_players (run ops g))" using ps(2) ops by (simp add: run_no_won)
    with w ps(2) show ?thesis by simp
  qed
  from a b c show ?thesis by blast
qed

theorem won_only_by_set_state_witness:
  "GameHandler_init [''Jan'', ''Kowalski''] 2 = Inr (new_game [''Jan'', ''Kowalski''] 2)
   \<and> list_all (\<lambda>op. \<not> sets_won op)
        [GH_start_round (\<lambda>p i. 0), GH_play_bid_turn 0 1 1, GH_play_challenge_turn (\<lambda>p i. 0) 1,
         Player_set_state 0 ACTIVE]
   \<and> no_won (gh_players (run
        [GH_start_round (\<lambda>p i. 0), GH_play_bid_turn 0 1 1, GH_play_challenge_turn (\<lambda>p i. 0) 1,
         Player_set_state 0 ACTIVE] (new_game [''Jan'', ''Kowalski''] 2)))
   \<and> map state (gh_players (run
        [GH_start_round (\<lambda>p i. 0), GH_play_bid_turn 0 1 1, GH_play_challenge_turn (\<lambda>p i. 0) 1,
         Player_set_state 0 ACTIVE] (new_game [''Jan'', ''Kowalski''] 2))) = [ACTIVE, ACTIVE]"
proof -
  let ?ops = "[GH_start_round (\<lambda>p i. 0), GH_play_bid_turn 0 1 1,
               GH_play_challenge_turn (\<lambda>p i. 0) 1, Player_set_state 0 ACTIVE]"
  have h: "GameHandler_init [''Jan'', ''Kowalski''] 2 = Inr (new_game [''Jan'', ''Kowalski''] 2)"
    by (simp add: GameHandler_init_def Player_init_def new_game_def example_player_def)
  have o: "list_all (\<lambda>op. \<not> sets_won op) ?ops" by simp
  have s: "map state (gh_players (run ?ops (new_game [''Jan'', ''Kowalski''] 2)))
             = [ACTIVE, ACTIVE]"
    by (simp add: eval_defs numeral_eq_Suc)
  from won_only_by_set_state [of "''Jan''" 2 "example_player ''Jan'' WAITING 2 []"
      "round_handler (new_game [''Jan'', ''Kowalski''] 2)" RH_next_player
      "[''Jan'', ''Kowalski'']" 2 "new_game [''Jan'', ''Kowalski''] 2" ?ops] h o
  have "no_won (gh_players (run ?ops (new_game [''Jan'', ''Kowalski''] 2)))" by blast
  with h o s show ?thesis by simp
qed

text \<open>
  Claim C10 as the specification states it fails: \<^verbatim>\<open>set_state\<close> is an operation of Player,
  and called with WON on a new player it leaves the player in state WON.
\<close>

theorem set_state_assigns_won:
  "Player_init ''Jan'' 1 = Inr (example_player ''Jan'' WAITING 1 [])
   \<and> set_state (example_player ''Jan'' WAITING 1 []) WON = Inr (example_player ''Jan'' WON 1 [])
   \<and> map state (gh_players (exec (Player_set_state 0 WON) (new_game [''Jan''] 1))) = [WON]"
  by (simp add: Player_init_def set_state_def eval_defs)

end
